theory Spec2Isabelle
  imports Complex_Main
begin

section \<open>Shared state, exceptions and environment of \<open>src/main.py\<close>\<close>

text \<open>
  The development embeds the supervisor thread \<open>run_discord_bot\<close> and the reporter
  functions \<open>update_bot_status\<close> and \<open>health_check\<close> of \<open>src/main.py\<close>.

  A \<open>datetime\<close> is a number of microseconds; the difference of two of them is a
  \<open>timedelta\<close>, and \<open>total_seconds\<close> divides it by \<open>10^6\<close>.  Seconds are rationals.
  The comparisons of \<open>total_seconds()\<close> with 600 and 120 are made on the exact quotient,
  which decides them as the rounded quotient does (\<open>float_seconds_gt_600\<close> and
  \<open>float_seconds_gt_120\<close> below); the product of line 188 is rounded as Python's
  floats are (\<open>to_double\<close> below).
\<close>

type_synonym datetime = int

definition total_seconds :: "int \<Rightarrow> rat" where
  "total_seconds delta = of_int delta / 1000000"

text \<open>
  An exception object (only subclasses of \<open>Exception\<close> are modelled): the name of its
  class, whether it is an instance of the class \<open>BotConfigurationError\<close> of the \<open>bot\<close>
  module, whether it is an \<open>ImportError\<close>, and \<open>str(e)\<close>.
\<close>

datatype exn = Exn (type_name: string) (is_bot_configuration_error: bool)
  (is_import_error: bool) (str: string)

text \<open>The module-level variables that both threads read, each under its lock.\<close>

record globals =
  fatal_error_state :: "string option"
  last_fatal_error_time :: "datetime option"
  current_bot_instance :: "nat option"

text \<open>
  The local variables of \<open>run_discord_bot\<close>.  \<open>bot_module\<close> and \<open>discord_module\<close> hold
  the truth value of the variable (\<open>None\<close> or a module).  The local name
  \<open>BotConfigurationError\<close> is either the class imported from \<open>bot\<close>
  (\<open>bot_configuration_error_imported\<close>) or still the fallback \<open>Exception\<close> of line 57.
\<close>

record sup_state = globals +
  retry_count :: nat
  bot_module :: bool
  discord_module :: bool
  bot_configuration_error_imported :: bool

text \<open>Python's truth value of \<open>fatal_error_state\<close>: \<open>None\<close> and the empty string are false.\<close>

definition truthy :: "string option \<Rightarrow> bool" where
  "truthy s = (case s of None \<Rightarrow> False | Some m \<Rightarrow> m \<noteq> [])"

text \<open>\<open>sub in s\<close> on strings.\<close>

fun starts_with :: "string \<Rightarrow> string \<Rightarrow> bool" where
  "starts_with [] s = True"
| "starts_with (c # cs) [] = False"
| "starts_with (c # cs) (d # ds) = (c = d \<and> starts_with cs ds)"

fun str_in :: "string \<Rightarrow> string \<Rightarrow> bool" where
  "str_in sub [] = (sub = [])"
| "str_in sub (c # cs) = (starts_with sub (c # cs) \<or> str_in sub cs)"

text \<open>
  What the supervisor does that can be seen from outside, in program order.  \<open>Sleep k\<close>
  stands for \<open>k\<close> calls of \<open>time.sleep(1)\<close>.
\<close>

datatype event =
    SetFatal string
  | ClearFatal
  | RecoveryAttempt
  | CheckToken
  | CreateBot
  | LoginTest
  | PublishHandle nat
  | RunBot
  | Sleep nat
  | ClearHandle

text \<open>
  The three import statements of lines 61--63 (and 96--98) run in order; the block ends
  at the first one that raises.
\<close>

datatype import_outcome =
    ImportsOk
  | BotImportFails exn
  | NameImportFails exn
  | DiscordImportFails exn

text \<open>
  What one pass of the \<open>while\<close> loop reads from outside: the clock, the \<open>bot\<close> module
  (which is not part of the sources: the results of its \<open>check_token\<close>, \<open>create_bot\<close>,
  of the login test and of \<open>run\<close> are inputs), the random jitter and the shutdown event.
  \<open>check_token_result\<close> is what \<open>bot_module.check_token()\<close> does at line 103: it raises
  or returns a truth value.  \<open>jitter\<close> is the float that \<open>random.uniform(0.8, 1.2)\<close>
  returns.  \<open>shutdown_poll i\<close> is the value of \<open>shutdown_event.is_set()\<close> at the \<open>i\<close>-th
  pass of the sleeping loop.
\<close>

record iter_env =
  now_check :: datetime
  reimport :: import_outcome
  check_token_result :: "exn + bool"
  preflight_create :: "exn option"
  preflight_login :: "exn option"
  create_result :: "exn + nat"
  run_result :: "exn option"
  now_fail :: datetime
  jitter :: rat
  shutdown_in_handler :: bool
  shutdown_poll :: "nat \<Rightarrow> bool"

text \<open>\<open>check_token()\<close> has returned a true value.\<close>

definition token_ok :: "iter_env \<Rightarrow> bool" where
  "token_ok env = (check_token_result env = Inr True)"

section \<open>Python's floats\<close>

text \<open>
  A float is an IEEE 754 double.  \<open>to_double x\<close> is the double nearest to the rational
  \<open>x\<close>, ties going to the even significand, as the result of a float operation is the
  rounded exact result.  With \<open>2^e \<le> |x| < 2^(e+1)\<close> the doubles around \<open>x\<close> are the
  multiples of \<open>2^(e-52)\<close>.  Overflow and subnormal numbers (magnitudes of \<open>2^1024\<close> and
  more, or below \<open>2^-1022\<close>) are not modelled; the delays of this program lie between 1
  and 360.
\<close>

fun bit_length :: "nat \<Rightarrow> nat" where
  "bit_length n = (if n = 0 then 0 else Suc (bit_length (n div 2)))"

declare bit_length.simps [simp del]

text \<open>For \<open>x > 0\<close>, the \<open>e\<close> with \<open>2^e \<le> x < 2^(e+1)\<close>.\<close>

definition binary_exponent :: "rat \<Rightarrow> int" where
  "binary_exponent x =
     (if 1 \<le> x then int (bit_length (nat \<lfloor>x\<rfloor>)) - 1
      else - int (bit_length (nat (\<lceil>1 / x\<rceil> - 1))))"

definition round_half_even :: "rat \<Rightarrow> int" where
  "round_half_even q =
     (let f = \<lfloor>q\<rfloor>; r = q - of_int f
      in if r < 1 / 2 then f else if 1 / 2 < r then f + 1 else if even f then f else f + 1)"

definition to_double :: "rat \<Rightarrow> rat" where
  "to_double x =
     (if x = 0 then 0
      else (let ulp = 2 powi (binary_exponent \<bar>x\<bar> - 52)
            in sgn x * of_int (round_half_even (\<bar>x\<bar> / ulp)) * ulp))"

section \<open>The supervisor: \<open>run_discord_bot\<close>\<close>

definition base_delay :: nat where "base_delay = 2"
definition max_delay :: nat where "max_delay = 300"

text \<open>Line 186: \<open>min(base_delay * (2 ** min(retry_count, 8)), max_delay)\<close>.\<close>

definition backoff :: "nat \<Rightarrow> nat" where
  "backoff rc = min (base_delay * 2 ^ min rc 8) max_delay"

text \<open>
  Line 188, \<open>wait_time * jitter\<close>: the integer delay (at most 300, so exact as a float)
  times the float \<open>jitter\<close>, the product rounded to a float.
\<close>

definition wait_time :: "nat \<Rightarrow> rat \<Rightarrow> rat" where
  "wait_time rc j = to_double (of_nat (backoff rc) * j)"

text \<open>\<open>int(x)\<close> on a float truncates towards zero.\<close>

definition py_int :: "rat \<Rightarrow> int" where
  "py_int x = (if 0 \<le> x then \<lfloor>x\<rfloor> else \<lceil>x\<rceil>)"

text \<open>
  Lines 140--143 and 196--199: \<open>for _ in range(n): if shutdown_event.is_set(): break;
  time.sleep(1)\<close>.  The result is the number of seconds slept; \<open>i\<close> counts the polls.
\<close>

fun sleep_loop :: "nat \<Rightarrow> (nat \<Rightarrow> bool) \<Rightarrow> nat \<Rightarrow> nat" where
  "sleep_loop 0 is_set i = 0"
| "sleep_loop (Suc n) is_set i =
     (if is_set i then 0 else Suc (sleep_loop n is_set (Suc i)))"

text \<open>Lines 61--63: what the import block has bound when it ends, and what it raised.\<close>

fun import_block :: "import_outcome \<Rightarrow> sup_state \<Rightarrow> sup_state \<times> exn option" where
  "import_block ImportsOk st =
     (st\<lparr>bot_module := True, discord_module := True,
         bot_configuration_error_imported := True\<rparr>, None)"
| "import_block (BotImportFails e) st = (st, Some e)"
| "import_block (NameImportFails e) st = (st\<lparr>bot_module := True\<rparr>, Some e)"
| "import_block (DiscordImportFails e) st =
     (st\<lparr>bot_module := True, bot_configuration_error_imported := True\<rparr>, Some e)"

text \<open>
  Lines 96--98: the same imports during recovery, where the class is bound to the name
  \<open>LocalBotConfigurationError\<close>, so \<open>BotConfigurationError\<close> keeps its value.
\<close>

fun reimport_block :: "import_outcome \<Rightarrow> sup_state \<Rightarrow> sup_state \<times> exn option" where
  "reimport_block ImportsOk st = (st\<lparr>bot_module := True, discord_module := True\<rparr>, None)"
| "reimport_block (BotImportFails e) st = (st, Some e)"
| "reimport_block (NameImportFails e) st = (st\<lparr>bot_module := True\<rparr>, Some e)"
| "reimport_block (DiscordImportFails e) st = (st\<lparr>bot_module := True\<rparr>, Some e)"

definition initial_state :: sup_state where
  "initial_state =
     \<lparr>fatal_error_state = None, last_fatal_error_time = None, current_bot_instance = None,
      retry_count = 0, bot_module = False, discord_module = False,
      bot_configuration_error_imported = False\<rparr>"

text \<open>
  Lines 72--77: the check of the token, guarded by \<open>bot_module\<close>.  \<open>tok\<close> is the truth
  value that \<open>check_token()\<close> returns.
\<close>

definition startup_token_check :: "bool \<Rightarrow> datetime \<Rightarrow> sup_state \<Rightarrow> event list \<times> sup_state" where
  "startup_token_check tok now st =
     (if bot_module st then
        (if \<not> tok then
           ([CheckToken, SetFatal ''Token Discord manquant''],
            st\<lparr>fatal_error_state := Some ''Token Discord manquant'',
               last_fatal_error_time := Some now\<rparr>)
         else ([CheckToken], st))
      else ([], st))"

text \<open>
  Lines 51--77.  An exception of the import block that is not an \<open>ImportError\<close> is not
  caught and ends the thread (\<open>Inl\<close>).
\<close>

definition startup ::
  "import_outcome \<Rightarrow> bool \<Rightarrow> datetime \<Rightarrow> datetime \<Rightarrow> exn + event list \<times> sup_state" where
  "startup imp tok now1 now2 =
     (case import_block imp initial_state of
        (st, None) \<Rightarrow> Inr (startup_token_check tok now2 st)
      | (st, Some e) \<Rightarrow>
          if is_import_error e then
            (let msg = ''Import error: '' @ str e;
                 st1 = st\<lparr>fatal_error_state := Some msg, last_fatal_error_time := Some now1\<rparr>;
                 (evs, st2) = startup_token_check tok now2 st1
             in Inr (SetFatal msg # evs, st2))
          else Inl e)"

text \<open>
  Lines 92--133, the recovery with its preflight, entered with the fatal message \<open>cfs\<close>.
  Both \<open>except\<close> clauses only log: the inner one (line 127) catches what \<open>create_bot\<close>
  and the login test raise, the outer one (line 132) what the re-import and
  \<open>check_token\<close> raise.
\<close>

definition recovery :: "iter_env \<Rightarrow> string \<Rightarrow> sup_state \<Rightarrow> event list \<times> sup_state" where
  "recovery env cfs st =
     (let (st1, raised) =
            (if str_in ''Import error'' cfs then reimport_block (reimport env) st
             else (st, None))
      in case raised of
           Some e \<Rightarrow> ([RecoveryAttempt], st1)
         | None \<Rightarrow>
             if bot_module st1 \<and> discord_module st1 then
               (case check_token_result env of
                  Inl e \<Rightarrow> ([RecoveryAttempt, CheckToken], st1)
                | Inr tok \<Rightarrow>
                   if \<not> tok then ([RecoveryAttempt, CheckToken], st1)
                   else case preflight_create env of
                          Some e \<Rightarrow> ([RecoveryAttempt, CheckToken, CreateBot], st1)
                        | None \<Rightarrow>
                           (case preflight_login env of
                              Some e \<Rightarrow>
                                ([RecoveryAttempt, CheckToken, CreateBot, LoginTest], st1)
                            | None \<Rightarrow>
                               ([RecoveryAttempt, CheckToken, CreateBot, LoginTest, ClearFatal],
                                st1\<lparr>fatal_error_state := None, last_fatal_error_time := None,
                                    retry_count := 0\<rparr>)))
             else ([RecoveryAttempt], st1))"

text \<open>Lines 82--135: the region that holds \<open>fatal_error_lock\<close>.\<close>

definition fatal_section :: "iter_env \<Rightarrow> sup_state \<Rightarrow> event list \<times> sup_state" where
  "fatal_section env st =
     (case (fatal_error_state st, last_fatal_error_time st) of
        (Some cfs, Some error_time) \<Rightarrow>
          if cfs \<noteq> [] \<and> total_seconds (now_check env - error_time) > 600
          then recovery env cfs st else ([], st)
      | _ \<Rightarrow> ([], st))"

text \<open>How the body of the \<open>try\<close> ends.\<close>

datatype completion = Completed | Continue | Raised exn

text \<open>Lines 80--157, the body of the \<open>try\<close>.\<close>

definition try_body :: "iter_env \<Rightarrow> sup_state \<Rightarrow> event list \<times> sup_state \<times> completion" where
  "try_body env st =
     (let (evs, st1) = fatal_section env st
      in if truthy (fatal_error_state st1) then
           (evs @ [Sleep (sleep_loop 30 (shutdown_poll env) 0)], st1, Continue)
         else if \<not> bot_module st1 \<or> \<not> discord_module st1 then
           (evs, st1, Raised (Exn ''Exception'' False False
                                ''Modules bot ou discord non disponibles''))
         else case create_result env of
                Inl e \<Rightarrow> (evs @ [CreateBot], st1, Raised e)
              | Inr b \<Rightarrow>
                 (let st2 = st1\<lparr>current_bot_instance := Some b\<rparr>
                  in case run_result env of
                       Some e \<Rightarrow> (evs @ [CreateBot, PublishHandle b, RunBot], st2, Raised e)
                     | None \<Rightarrow> (evs @ [CreateBot, PublishHandle b, RunBot], st2, Completed)))"

text \<open>\<open>except BotConfigurationError\<close> matches by the class the name is bound to.\<close>

definition caught_as_configuration :: "sup_state \<Rightarrow> exn \<Rightarrow> bool" where
  "caught_as_configuration st e =
     (if bot_configuration_error_imported st then is_bot_configuration_error e else True)"

text \<open>
  Lines 159--199, the two \<open>except\<close> clauses.  The third component tells whether the
  clause left the loop with \<open>break\<close>.
\<close>

definition handle_exception ::
  "iter_env \<Rightarrow> exn \<Rightarrow> sup_state \<Rightarrow> event list \<times> sup_state \<times> bool" where
  "handle_exception env e st =
     (if caught_as_configuration st e then
        (let msg = ''Configuration error: '' @ str e
         in ([SetFatal msg],
             st\<lparr>fatal_error_state := Some msg, last_fatal_error_time := Some (now_fail env)\<rparr>,
             False))
      else
        (let (evs, st1) =
               (if type_name e = ''LoginFailure'' then
                  (let msg = ''Invalid token: '' @ str e
                   in ([SetFatal msg],
                       st\<lparr>fatal_error_state := Some msg,
                          last_fatal_error_time := Some (now_fail env)\<rparr>))
                else ([], st\<lparr>retry_count := retry_count st + 1\<rparr>))
         in if shutdown_in_handler env then (evs, st1, True)
            else
              (evs @ [Sleep (sleep_loop (nat (py_int (wait_time (retry_count st1) (jitter env))))
                               (shutdown_poll env) 0)],
               st1, False)))"

text \<open>Lines 200--203, the \<open>finally\<close> clause.\<close>

definition finally_block :: "sup_state \<Rightarrow> event list \<times> sup_state" where
  "finally_block st = ([ClearHandle], st\<lparr>current_bot_instance := None\<rparr>)"

text \<open>
  One pass of the loop (lines 80--203): the body, then the handler when the body raised,
  then the \<open>finally\<close> clause.
\<close>

definition loop_iteration :: "iter_env \<Rightarrow> sup_state \<Rightarrow> event list \<times> sup_state \<times> bool" where
  "loop_iteration env st =
     (let (evs1, st1, c) = try_body env st;
          (evs2, st2, brk) =
            (case c of Raised e \<Rightarrow> handle_exception env e st1 | _ \<Rightarrow> ([], st1, False));
          (evs3, st3) = finally_block st2
      in (evs1 @ evs2 @ evs3, st3, brk))"

text \<open>
  Line 79, \<open>while not shutdown_event.is_set()\<close>, over the passes for which inputs are
  given: each element is the value of the shutdown event at the head of the loop and the
  environment of the pass.  The last component tells whether the loop has ended.
\<close>

fun supervisor_loop ::
  "(bool \<times> iter_env) list \<Rightarrow> sup_state \<Rightarrow> event list \<times> sup_state \<times> bool" where
  "supervisor_loop [] st = ([], st, False)"
| "supervisor_loop ((is_set, env) # rest) st =
     (if is_set then ([], st, True)
      else case loop_iteration env st of
             (evs, st1, brk) \<Rightarrow>
               if brk then (evs, st1, True)
               else (case supervisor_loop rest st1 of
                       (evs', st2, ended) \<Rightarrow> (evs @ evs', st2, ended)))"

section \<open>The reporter: \<open>update_bot_status\<close> and \<open>health_check\<close>\<close>

text \<open>
  The dictionary \<open>bot_status\<close> of \<open>run_web_server\<close>.  \<open>last_update\<close> holds the time that
  the code stores formatted as \<open>%H:%M:%S\<close>.
\<close>

record bot_status =
  online :: bool
  first_online_time :: "datetime option"
  offline_since :: "datetime option"
  bot_name :: string
  servers :: nat
  last_update :: "datetime option"
  reconnect_count :: nat

definition initial_bot_status :: bot_status where
  "initial_bot_status =
     \<lparr>online = False, first_online_time = None, offline_since = None,
      bot_name = ''Bot Discord'', servers = 0, last_update = None, reconnect_count = 0\<rparr>"

text \<open>
  What the reporter reads from the published bot object: either \<open>is_ready()\<close> raises, or
  it returns and \<open>str(user)\<close> (when \<open>user\<close> is set) and \<open>len(guilds)\<close> are read.
\<close>

datatype probe = ProbeRaises | Probe bool "string option" nat

text \<open>Lines 504--514, the bot is not ready or there is none.\<close>

definition mark_offline :: "datetime \<Rightarrow> datetime \<Rightarrow> bot_status \<Rightarrow> bot_status" where
  "mark_offline app_start_time now bs =
     (let bs1 =
            (if online bs then
               bs\<lparr>offline_since := Some now, reconnect_count := reconnect_count bs + 1\<rparr>
             else if offline_since bs = None then bs\<lparr>offline_since := Some app_start_time\<rparr>
             else bs)
      in bs1\<lparr>online := False, bot_name := ''Bot Discord'', servers := 0\<rparr>)"

text \<open>Lines 493--502, the bot is ready.\<close>

definition mark_online :: "datetime \<Rightarrow> string option \<Rightarrow> nat \<Rightarrow> bot_status \<Rightarrow> bot_status" where
  "mark_online now user guilds bs =
     (let bs1 =
            (if \<not> online bs then
               bs\<lparr>first_online_time :=
                     (if first_online_time bs = None then Some now else first_online_time bs),
                  offline_since := None\<rparr>
             else bs)
      in bs1\<lparr>online := True,
             bot_name := (case user of Some u \<Rightarrow> u | None \<Rightarrow> ''Bot Discord''),
             servers := guilds\<rparr>)"

text \<open>
  Lines 467--523.  \<open>g\<close> is the reporter's reading of the shared variables, \<open>now\<close> its
  reading of the clock, \<open>pr\<close> what the published bot object answers.
\<close>

definition update_bot_status ::
  "datetime \<Rightarrow> datetime \<Rightarrow> probe \<Rightarrow> 'a globals_scheme \<Rightarrow> bot_status \<Rightarrow> bot_status" where
  "update_bot_status app_start_time now pr g bs =
     (case (if truthy (fatal_error_state g) then fatal_error_state g else None) of
        Some current_fatal_state \<Rightarrow>
          (let bs1 = (if online bs then bs\<lparr>offline_since := Some now\<rparr> else bs)
           in bs1\<lparr>online := False,
                  bot_name := ''Bot Discord (Erreur fatale: '' @ current_fatal_state @ '')'',
                  servers := 0, last_update := Some now\<rparr>)
      | None \<Rightarrow>
          (case current_bot_instance g of
             None \<Rightarrow> (mark_offline app_start_time now bs)\<lparr>last_update := Some now\<rparr>
           | Some b \<Rightarrow>
              (case pr of
                 ProbeRaises \<Rightarrow>
                   (if online bs then bs\<lparr>offline_since := Some now\<rparr> else bs)\<lparr>online := False\<rparr>
               | Probe ready user guilds \<Rightarrow>
                   (if ready then (mark_online now user guilds bs)\<lparr>last_update := Some now\<rparr>
                    else (mark_offline app_start_time now bs)\<lparr>last_update := Some now\<rparr>))))"

text \<open>
  The values of a JSON body.  \<open>JTime t\<close> is \<open>t.isoformat()\<close>; \<open>JOfflineMessage d g\<close> is the
  string \<open>f'Bot offline for {d:.0f}s (grace: {g}s)'\<close>.
\<close>

datatype json = JStr string | JBool bool | JNum rat | JTime datetime | JNull
  | JOfflineMessage rat nat

definition grace_period :: nat where "grace_period = 120"

text \<open>Lines 566--570.\<close>

definition offline_duration :: "datetime \<Rightarrow> bot_status \<Rightarrow> rat" where
  "offline_duration now bs =
     (case offline_since bs of Some t \<Rightarrow> total_seconds (now - t) | None \<Rightarrow> 0)"

text \<open>
  Lines 544--604.  \<open>update_bot_status\<close> runs first, on the reading \<open>g_u\<close> of the shared
  variables at the time \<open>now_u\<close>; then \<open>health_check\<close> reads the fatal error again (\<open>g\<close>)
  and the clock (\<open>now\<close>).  The result is the new \<open>bot_status\<close>, the body and the status
  code.
\<close>

definition health_check ::
  "datetime \<Rightarrow> datetime \<Rightarrow> probe \<Rightarrow> 'a globals_scheme \<Rightarrow> datetime \<Rightarrow> 'b globals_scheme \<Rightarrow>
     bot_status \<Rightarrow> bot_status \<times> (string \<times> json) list \<times> nat" where
  "health_check app_start_time now_u pr g_u now g bs =
     (let bs1 = update_bot_status app_start_time now_u pr g_u bs;
          current_fatal_state = fatal_error_state g;
          error_time = last_fatal_error_time g;
          app_runtime = total_seconds (now - app_start_time);
          bot_online = online bs1;
          d = offline_duration now bs1
      in if truthy current_fatal_state then
           (bs1,
            [(''status'', JStr ''unhealthy''),
             (''bot_online'', JBool False),
             (''timestamp'', JTime now),
             (''error'', JStr (''Fatal error: '' @ the current_fatal_state)),
             (''app_runtime'', JNum app_runtime),
             (''fatal'', JBool True),
             (''error_time'', (case error_time of Some t \<Rightarrow> JTime t | None \<Rightarrow> JNull))],
            503)
         else if \<not> bot_online \<and> d > of_nat grace_period then
           (bs1,
            [(''status'', JStr ''unhealthy''),
             (''bot_online'', JBool False),
             (''timestamp'', JTime now),
             (''error'', JOfflineMessage d grace_period),
             (''offline_duration'', JNum d),
             (''app_runtime'', JNum app_runtime)],
            503)
         else
           (bs1,
            [(''status'', JStr ''healthy''),
             (''bot_online'', JBool bot_online),
             (''timestamp'', JTime now),
             (''heartbeat'', JBool True),
             (''offline_duration'', JNum d),
             (''app_runtime'', JNum app_runtime),
             (''service'', JStr ''discord-bot-heartbeat'')],
            200))"

section \<open>The fatal error under \<open>fatal_error_lock\<close>\<close>

text \<open>
  The supervisor changes \<open>fatal_error_state\<close> and \<open>last_fatal_error_time\<close> by two
  statements (lines 122 and 123) inside \<open>with fatal_error_lock\<close> (lines 82--135), and
  \<open>health_check\<close> reads them by two statements inside \<open>with fatal_error_lock\<close> (lines
  550--552).  The two threads are run here statement by statement, in any order.
\<close>

datatype shared_write = WriteFatalState "string option" | WriteFatalTime "datetime option"

fun apply_write :: "shared_write \<Rightarrow> globals \<Rightarrow> globals" where
  "apply_write (WriteFatalState v) g = g\<lparr>fatal_error_state := v\<rparr>"
| "apply_write (WriteFatalTime v) g = g\<lparr>last_fatal_error_time := v\<rparr>"

definition shared_of :: "sup_state \<Rightarrow> globals" where
  "shared_of st =
     \<lparr>fatal_error_state = fatal_error_state st,
      last_fatal_error_time = last_fatal_error_time st,
      current_bot_instance = current_bot_instance st\<rparr>"

text \<open>
  The writes to the shared variables in the region of lines 82--135, in program order:
  lines 122 and 123 when the preflight has succeeded, none otherwise.
\<close>

definition fatal_section_writes :: "iter_env \<Rightarrow> sup_state \<Rightarrow> shared_write list" where
  "fatal_section_writes env st =
     (if ClearFatal \<in> set (fst (fatal_section env st))
      then [WriteFatalState None, WriteFatalTime None] else [])"

datatype thread = Supervisor | Reporter

text \<open>
  Where the supervisor is: before line 82 with the writes it is going to make, inside
  the region with the writes that are left, or after line 135.
\<close>

datatype supervisor_pc = SupBefore "shared_write list" | SupInside "shared_write list" | SupAfter

text \<open>
  Where \<open>health_check\<close> is: before line 550, holding the lock, after line 551 with the
  value read, after line 552 with both values, or after the region with its two values.
\<close>

datatype reporter_pc =
    RepBefore
  | RepInside
  | RepReadState "string option"
  | RepReadBoth "string option" "datetime option"
  | RepAfter "string option" "datetime option"

record system =
  shared :: globals
  fatal_error_lock :: "thread option"
  supervisor :: supervisor_pc
  reporter :: reporter_pc

text \<open>
  One statement of a thread.  Entering \<open>with fatal_error_lock\<close> takes the lock when it is
  free; a thread that finds it taken waits, that is, it stays where it is.
\<close>

fun thread_step :: "thread \<Rightarrow> system \<Rightarrow> system" where
  "thread_step Supervisor s =
     (case supervisor s of
        SupBefore ws \<Rightarrow>
          if fatal_error_lock s = None
          then s\<lparr>fatal_error_lock := Some Supervisor, supervisor := SupInside ws\<rparr> else s
      | SupInside [] \<Rightarrow> s\<lparr>fatal_error_lock := None, supervisor := SupAfter\<rparr>
      | SupInside (w # ws) \<Rightarrow> s\<lparr>shared := apply_write w (shared s), supervisor := SupInside ws\<rparr>
      | SupAfter \<Rightarrow> s)"
| "thread_step Reporter s =
     (case reporter s of
        RepBefore \<Rightarrow>
          if fatal_error_lock s = None
          then s\<lparr>fatal_error_lock := Some Reporter, reporter := RepInside\<rparr> else s
      | RepInside \<Rightarrow> s\<lparr>reporter := RepReadState (fatal_error_state (shared s))\<rparr>
      | RepReadState f \<Rightarrow> s\<lparr>reporter := RepReadBoth f (last_fatal_error_time (shared s))\<rparr>
      | RepReadBoth f t \<Rightarrow> s\<lparr>fatal_error_lock := None, reporter := RepAfter f t\<rparr>
      | RepAfter f t \<Rightarrow> s)"

text \<open>The threads take their steps in the order of the schedule.\<close>

fun run_schedule :: "thread list \<Rightarrow> system \<Rightarrow> system" where
  "run_schedule [] s = s"
| "run_schedule (t # ts) s = run_schedule ts (thread_step t s)"

text \<open>Both threads in front of their regions, the supervisor in the state \<open>st\<close>.\<close>

definition region_start :: "iter_env \<Rightarrow> sup_state \<Rightarrow> system" where
  "region_start env st =
     \<lparr>shared = shared_of st, fatal_error_lock = None,
      supervisor = SupBefore (fatal_section_writes env st), reporter = RepBefore\<rparr>"

text \<open>
  What holds of the system at every moment, where \<open>pre\<close> are the shared variables before
  the region and \<open>ws\<close> the writes of the region.
\<close>

definition lock_inv :: "globals \<Rightarrow> shared_write list \<Rightarrow> system \<Rightarrow> bool" where
  "lock_inv pre ws s =
     ((case supervisor s of
         SupBefore ws' \<Rightarrow>
           ws' = ws \<and> shared s = pre \<and> fatal_error_lock s \<noteq> Some Supervisor
       | SupInside ws' \<Rightarrow>
           fatal_error_lock s = Some Supervisor
           \<and> fold apply_write ws' (shared s) = fold apply_write ws pre
       | SupAfter \<Rightarrow>
           shared s = fold apply_write ws pre \<and> fatal_error_lock s \<noteq> Some Supervisor)
      \<and> (case reporter s of
            RepBefore \<Rightarrow> fatal_error_lock s \<noteq> Some Reporter
          | RepInside \<Rightarrow> fatal_error_lock s = Some Reporter
          | RepReadState f \<Rightarrow>
              fatal_error_lock s = Some Reporter \<and> f = fatal_error_state (shared s)
          | RepReadBoth f t \<Rightarrow>
              fatal_error_lock s = Some Reporter \<and> f = fatal_error_state (shared s)
              \<and> t = last_fatal_error_time (shared s)
          | RepAfter f t \<Rightarrow>
              fatal_error_lock s \<noteq> Some Reporter
              \<and> (f = fatal_error_state pre \<and> t = last_fatal_error_time pre
                 \<or> f = fatal_error_state (fold apply_write ws pre)
                   \<and> t = last_fatal_error_time (fold apply_write ws pre))))"

section \<open>The fatal error as the supervisor writes it\<close>

text \<open>
  Every message that the supervisor stores in \<open>fatal_error_state\<close> starts with a fixed,
  non-empty text, and the time is stored and cleared together with it.
\<close>

definition fatal_inv :: "'a globals_scheme \<Rightarrow> bool" where
  "fatal_inv g =
     (case fatal_error_state g of
        None \<Rightarrow> last_fatal_error_time g = None
      | Some m \<Rightarrow> m \<noteq> [] \<and> last_fatal_error_time g \<noteq> None)"

section \<open>Concrete scenarios\<close>

text \<open>
  An environment in which nothing fails and no shutdown is requested, and states of the
  supervisor, used to run the definitions on concrete inputs.
\<close>

definition quiet_env :: iter_env where
  "quiet_env =
     \<lparr>now_check = 0, reimport = ImportsOk, check_token_result = Inr True,
      preflight_create = None,
      preflight_login = None, create_result = Inr 7, run_result = None, now_fail = 0,
      jitter = 1, shutdown_in_handler = False, shutdown_poll = (\<lambda>i. False)\<rparr>"

definition token_missing_state :: sup_state where
  "token_missing_state =
     \<lparr>fatal_error_state = Some ''Token Discord manquant'', last_fatal_error_time = Some 0,
      current_bot_instance = None, retry_count = 0, bot_module = True, discord_module = True,
      bot_configuration_error_imported = True\<rparr>"

definition running_state :: sup_state where
  "running_state =
     \<lparr>fatal_error_state = None, last_fatal_error_time = None,
      current_bot_instance = None, retry_count = 0, bot_module = True, discord_module = True,
      bot_configuration_error_imported = True\<rparr>"

text \<open>The floats nearest to 0.9 and to 0.83.\<close>

definition jitter_0_9 :: rat where
  "jitter_0_9 = 8106479329266893 / 9007199254740992"

definition jitter_0_83 :: rat where
  "jitter_0_83 = 7475975381435023 / 9007199254740992"

definition connection_reset :: exn where
  "connection_reset = Exn ''ConnectionResetError'' False False ''Connection reset by peer''"

definition import_error_state :: sup_state where
  "import_error_state =
     \<lparr>fatal_error_state = Some ''Import error: No module named bot'',
      last_fatal_error_time = Some 0, current_bot_instance = None, retry_count = 0,
      bot_module = False, discord_module = False, bot_configuration_error_imported = False\<rparr>"

definition login_failure :: exn where
  "login_failure = Exn ''LoginFailure'' False False ''Improper token has been passed.''"


definition module_not_found :: exn where
  "module_not_found = Exn ''ModuleNotFoundError'' False True ''No module named bot''"

definition discord_not_found :: exn where
  "discord_not_found = Exn ''ModuleNotFoundError'' False True ''No module named discord''"

definition login_failure_env :: iter_env where
  "login_failure_env =
     quiet_env\<lparr>now_check := 601000000, run_result := Some login_failure,
       now_fail := 602000000\<rparr>"

definition recovered_state :: sup_state where
  "recovered_state =
     \<lparr>fatal_error_state = None, last_fatal_error_time = None, current_bot_instance = None,
      retry_count = 0, bot_module = True, discord_module = True,
      bot_configuration_error_imported = False\<rparr>"

definition transient_env :: iter_env where
  "transient_env = quiet_env\<lparr>run_result := Some connection_reset, jitter := jitter_0_9\<rparr>"

section \<open>Auxiliary facts\<close>

lemma sleep_loop_le: "sleep_loop n is_set i \<le> n"
  by (induction n arbitrary: i) auto

lemma sleep_loop_full: "(\<And>k. \<not> is_set k) \<Longrightarrow> sleep_loop n is_set i = n"
  by (induction n arbitrary: i) auto

lemma backoff_le_max: "backoff rc \<le> 300"
  by (simp add: backoff_def max_delay_def)

lemma backoff_mono: "a \<le> b \<Longrightarrow> backoff a \<le> backoff b"
  unfolding backoff_def base_delay_def max_delay_def
  by (intro min.mono mult_le_mono power_increasing) auto

lemma fatal_section_idle:
  assumes "fatal_error_state st = Some m" "last_fatal_error_time st = Some t"
    "total_seconds (now_check env - t) \<le> 600"
  shows "fatal_section env st = ([], st)"
  using assms by (simp add: fatal_section_def)

lemma iteration_while_fatal:
  assumes "fatal_error_state st = Some m" "m \<noteq> []" "last_fatal_error_time st = Some t"
    "total_seconds (now_check env - t) \<le> 600"
  shows "loop_iteration env st =
    ([Sleep (sleep_loop 30 (shutdown_poll env) 0), ClearHandle],
     st\<lparr>current_bot_instance := None\<rparr>, False)"
  using assms
  by (simp add: loop_iteration_def try_body_def fatal_section_idle truthy_def finally_block_def)

lemma loop_while_fatal:
  assumes "fatal_error_state st = Some m" "m \<noteq> []" "last_fatal_error_time st = Some t"
    "\<forall>p \<in> set passes. total_seconds (now_check (snd p) - t) \<le> 600"
  shows "CreateBot \<notin> set (fst (supervisor_loop passes st))
       \<and> RunBot \<notin> set (fst (supervisor_loop passes st))
       \<and> RecoveryAttempt \<notin> set (fst (supervisor_loop passes st))
       \<and> fatal_error_state (fst (snd (supervisor_loop passes st))) = Some m
       \<and> last_fatal_error_time (fst (snd (supervisor_loop passes st))) = Some t"
  using assms
proof (induction passes arbitrary: st)
  case Nil
  then show ?case by simp
next
  case (Cons p passes)
  obtain is_set env where p: "p = (is_set, env)" by (cases p)
  show ?case
  proof (cases is_set)
    case True
    with Cons.prems p show ?thesis by simp
  next
    case False
    let ?st1 = "st\<lparr>current_bot_instance := None\<rparr>"
    have le: "total_seconds (now_check env - t) \<le> 600"
      using Cons.prems(4) p by simp
    have it: "loop_iteration env st =
       ([Sleep (sleep_loop 30 (shutdown_poll env) 0), ClearHandle], ?st1, False)"
      using Cons.prems(1-3) le by (rule iteration_while_fatal)
    have ih: "CreateBot \<notin> set (fst (supervisor_loop passes ?st1))
       \<and> RunBot \<notin> set (fst (supervisor_loop passes ?st1))
       \<and> RecoveryAttempt \<notin> set (fst (supervisor_loop passes ?st1))
       \<and> fatal_error_state (fst (snd (supervisor_loop passes ?st1))) = Some m
       \<and> last_fatal_error_time (fst (snd (supervisor_loop passes ?st1))) = Some t"
      using Cons.prems by (intro Cons.IH) auto
    show ?thesis
      using ih False p it by (auto split: prod.splits)
  qed
qed

lemma recovery_starts: "\<exists>evs. fst (recovery env cfs st) = RecoveryAttempt # evs"
  by (auto simp: recovery_def split: prod.splits option.splits sum.splits)

lemma try_body_prefix: "\<exists>r. fst (try_body env st) = fst (fatal_section env st) @ r"
  by (simp add: try_body_def Let_def split: prod.splits sum.splits option.splits)

lemma loop_iteration_prefix: "\<exists>r. fst (loop_iteration env st) = fst (try_body env st) @ r"
  by (simp add: loop_iteration_def finally_block_def split: prod.splits)

lemma iteration_after_threshold:
  assumes "fatal_error_state st = Some m" "m \<noteq> []" "last_fatal_error_time st = Some t"
    "total_seconds (now_check env - t) > 600"
  shows "\<exists>evs. fst (loop_iteration env st) = RecoveryAttempt # evs"
proof -
  obtain evs where r: "fst (recovery env m st) = RecoveryAttempt # evs"
    using recovery_starts by blast
  have fs: "fatal_section env st = recovery env m st"
    using assms by (simp add: fatal_section_def)
  obtain r1 where 1: "fst (try_body env st) = fst (fatal_section env st) @ r1"
    using try_body_prefix by blast
  obtain r2 where 2: "fst (loop_iteration env st) = fst (try_body env st) @ r2"
    using loop_iteration_prefix by blast
  show ?thesis
    using r fs 1 2 by simp
qed

lemma sleep_loop_first:
  "m < n \<Longrightarrow> is_set (i + m) \<Longrightarrow> (\<forall>k<m. \<not> is_set (i + k)) \<Longrightarrow> sleep_loop n is_set i = m"
proof (induction n arbitrary: i m)
  case 0
  then show ?case by simp
next
  case (Suc n)
  show ?case
  proof (cases m)
    case 0
    with Suc.prems show ?thesis by simp
  next
    case (Suc m')
    have first: "\<not> is_set i"
      using Suc.prems(3) Suc by force
    have "sleep_loop n is_set (Suc i) = m'"
    proof (rule Suc.IH)
      show "m' < n" using Suc.prems(1) Suc by simp
      show "is_set (Suc i + m')" using Suc.prems(2) Suc by simp
      show "\<forall>k<m'. \<not> is_set (Suc i + k)"
      proof (intro allI impI)
        fix k assume "k < m'"
        then have "Suc k < m" using Suc by simp
        then have "\<not> is_set (i + Suc k)" using Suc.prems(3) by blast
        then show "\<not> is_set (Suc i + k)" by simp
      qed
    qed
    then show ?thesis using first Suc by simp
  qed
qed

lemma sleep_loop_all:
  "(\<forall>k<n. \<not> is_set (i + k)) \<Longrightarrow> sleep_loop n is_set i = n"
proof (induction n arbitrary: i)
  case 0
  then show ?case by simp
next
  case (Suc n)
  have first: "\<not> is_set i"
    using Suc.prems by force
  have "\<forall>k<n. \<not> is_set (Suc i + k)"
  proof (intro allI impI)
    fix k assume "k < n"
    then have "Suc k < Suc n" by simp
    then have "\<not> is_set (i + Suc k)" using Suc.prems by blast
    then show "\<not> is_set (Suc i + k)" by simp
  qed
  then have "sleep_loop n is_set (Suc i) = n" by (rule Suc.IH)
  then show ?case using first by simp
qed

lemma recovery_trace:
  "fst (recovery env cfs st) =
     (if \<not> (if str_in ''Import error'' cfs then reimport env = ImportsOk
              else bot_module st \<and> discord_module st)
      then [RecoveryAttempt]
      else if \<not> token_ok env then [RecoveryAttempt, CheckToken]
      else if preflight_create env \<noteq> None then [RecoveryAttempt, CheckToken, CreateBot]
      else if preflight_login env \<noteq> None
        then [RecoveryAttempt, CheckToken, CreateBot, LoginTest]
      else [RecoveryAttempt, CheckToken, CreateBot, LoginTest, ClearFatal])"
proof (cases "str_in ''Import error'' cfs")
  case True
  then show ?thesis
    by (cases "reimport env")
       (auto simp: recovery_def token_ok_def split: option.splits sum.splits)
next
  case False
  then show ?thesis
    by (auto simp: recovery_def token_ok_def split: option.splits sum.splits)
qed

lemma reimport_block_shared:
  "fatal_error_state (fst (reimport_block imp st)) = fatal_error_state st
   \<and> last_fatal_error_time (fst (reimport_block imp st)) = last_fatal_error_time st"
  by (cases imp) simp_all

lemma recovery_cleared:
  assumes "ClearFatal \<in> set (fst (recovery env cfs st))"
  shows "fatal_error_state (snd (recovery env cfs st)) = None
       \<and> last_fatal_error_time (snd (recovery env cfs st)) = None"
  using assms
  by (auto simp: recovery_def split: prod.splits option.splits sum.splits if_splits)

lemma recovery_not_cleared:
  assumes "ClearFatal \<notin> set (fst (recovery env cfs st))"
  shows "fatal_error_state (snd (recovery env cfs st)) = fatal_error_state st
       \<and> last_fatal_error_time (snd (recovery env cfs st)) = last_fatal_error_time st"
proof (cases "str_in ''Import error'' cfs")
  case True
  then show ?thesis
    using assms reimport_block_shared [of "reimport env" st]
    by (cases "reimport_block (reimport env) st")
       (auto simp: recovery_def split: option.splits sum.splits if_splits)
next
  case False
  then show ?thesis
    using assms
    by (auto simp: recovery_def split: option.splits sum.splits if_splits)
qed

section \<open>No connection attempt while the fatal error is recent\<close>

lemma pass_after_failed_recovery:
  assumes "fatal_error_state st = Some m" "m \<noteq> []" "last_fatal_error_time st = Some t"
    "total_seconds (now_check env - t) > 600"
    "\<not> ((if str_in ''Import error'' m then reimport env = ImportsOk
          else bot_module st \<and> discord_module st)
        \<and> token_ok env \<and> preflight_create env = None \<and> preflight_login env = None)"
  shows "fst (loop_iteration env st) =
           fst (fatal_section env st) @ [Sleep (sleep_loop 30 (shutdown_poll env) 0), ClearHandle]"
proof -
  have fs: "fatal_section env st = recovery env m st"
    using assms(1-4) by (simp add: fatal_section_def)
  obtain evs st1 where r: "recovery env m st = (evs, st1)"
    by (cases "recovery env m st")
  have "ClearFatal \<notin> set (fst (recovery env m st))"
    using assms(5) by (auto simp: recovery_trace)
  then have "fatal_error_state st1 = Some m"
    using recovery_not_cleared [of env m st] assms(1) r by simp
  then have "truthy (fatal_error_state st1)"
    using assms(2) by (simp add: truthy_def)
  then have "try_body env st = (evs @ [Sleep (sleep_loop 30 (shutdown_poll env) 0)], st1, Continue)"
    by (simp add: try_body_def fs r)
  then show ?thesis
    by (simp add: loop_iteration_def finally_block_def fs r)
qed

lemma pass_after_successful_recovery:
  assumes "fatal_error_state st = Some m" "m \<noteq> []" "last_fatal_error_time st = Some t"
    "total_seconds (now_check env - t) > 600"
    "(if str_in ''Import error'' m then reimport env = ImportsOk
      else bot_module st \<and> discord_module st)
     \<and> token_ok env \<and> preflight_create env = None \<and> preflight_login env = None"
  shows "take 5 (fst (loop_iteration env st)) =
           [RecoveryAttempt, CheckToken, CreateBot, LoginTest, ClearFatal]"
proof -
  have fs: "fatal_section env st = recovery env m st"
    using assms(1-4) by (simp add: fatal_section_def)
  have tr: "fst (fatal_section env st) =
      [RecoveryAttempt, CheckToken, CreateBot, LoginTest, ClearFatal]"
    unfolding fs using assms(5) by (simp add: recovery_trace)
  obtain r1 where 1: "fst (try_body env st) = fst (fatal_section env st) @ r1"
    using try_body_prefix by blast
  obtain r2 where 2: "fst (loop_iteration env st) = fst (try_body env st) @ r2"
    using loop_iteration_prefix by blast
  show ?thesis
    using 1 2 tr by simp
qed

lemma sleep_loop_30: "sleep_loop 30 (\<lambda>i. False) 0 = 30"
  by (rule sleep_loop_all) simp

text \<open>
  Claim C1.  Let the fatal error be set, with the time \<open>t\<close> stored beside it.  Over any
  number of passes of the loop whose clock readings are at most 600 seconds after \<open>t\<close>,
  the supervisor constructs no bot, calls no \<open>run\<close> and starts no recovery, and the fatal
  error and its time stay as they are.  A pass whose clock reading is more than 600
  seconds after \<open>t\<close> runs the preflight validation, step by step: it starts the
  recovery; if the modules are there (after the re-import, when the message contains
  \<open>Import error\<close>) it checks the token; if the token is there it creates the test bot;
  if that raises nothing it runs the login test; if that raises nothing it clears the
  fatal error, and these five steps are then the first of the pass.  When one of the
  steps fails, the pass does nothing more than wait its 30 seconds and clear the bot
  object.
\<close>

theorem no_connection_attempt_while_fatal:
  assumes "fatal_inv st" "fatal_error_state st = Some m" "last_fatal_error_time st = Some t"
  shows "((\<forall>p \<in> set passes. total_seconds (now_check (snd p) - t) \<le> 600) \<longrightarrow>
            CreateBot \<notin> set (fst (supervisor_loop passes st))
          \<and> RunBot \<notin> set (fst (supervisor_loop passes st))
          \<and> RecoveryAttempt \<notin> set (fst (supervisor_loop passes st))
          \<and> fatal_error_state (fst (snd (supervisor_loop passes st))) = Some m
          \<and> last_fatal_error_time (fst (snd (supervisor_loop passes st))) = Some t)
       \<and> (total_seconds (now_check env - t) > 600 \<longrightarrow>
            take 1 (fst (loop_iteration env st)) = [RecoveryAttempt]
          \<and> fst (fatal_section env st) =
              (if \<not> (if str_in ''Import error'' m then reimport env = ImportsOk
                       else bot_module st \<and> discord_module st)
               then [RecoveryAttempt]
               else if \<not> token_ok env then [RecoveryAttempt, CheckToken]
               else if preflight_create env \<noteq> None
                 then [RecoveryAttempt, CheckToken, CreateBot]
               else if preflight_login env \<noteq> None
                 then [RecoveryAttempt, CheckToken, CreateBot, LoginTest]
               else [RecoveryAttempt, CheckToken, CreateBot, LoginTest, ClearFatal])
          \<and> (\<not> ((if str_in ''Import error'' m then reimport env = ImportsOk
                    else bot_module st \<and> discord_module st)
                  \<and> token_ok env \<and> preflight_create env = None \<and> preflight_login env = None)
              \<longrightarrow> fst (loop_iteration env st) =
                    fst (fatal_section env st)
                    @ [Sleep (sleep_loop 30 (shutdown_poll env) 0), ClearHandle])
          \<and> ((if str_in ''Import error'' m then reimport env = ImportsOk
                else bot_module st \<and> discord_module st)
               \<and> token_ok env \<and> preflight_create env = None \<and> preflight_login env = None
              \<longrightarrow> take 5 (fst (loop_iteration env st)) =
                    [RecoveryAttempt, CheckToken, CreateBot, LoginTest, ClearFatal]))"
proof -
  have m: "m \<noteq> []"
    using assms(1,2) by (simp add: fatal_inv_def)
  have early: "(\<forall>p \<in> set passes. total_seconds (now_check (snd p) - t) \<le> 600) \<longrightarrow>
            CreateBot \<notin> set (fst (supervisor_loop passes st))
          \<and> RunBot \<notin> set (fst (supervisor_loop passes st))
          \<and> RecoveryAttempt \<notin> set (fst (supervisor_loop passes st))
          \<and> fatal_error_state (fst (snd (supervisor_loop passes st))) = Some m
          \<and> last_fatal_error_time (fst (snd (supervisor_loop passes st))) = Some t"
    using loop_while_fatal [OF assms(2) m assms(3)] by blast
  have late: "take 1 (fst (loop_iteration env st)) = [RecoveryAttempt]"
    if late_h: "total_seconds (now_check env - t) > 600"
  proof -
    obtain evs where "fst (loop_iteration env st) = RecoveryAttempt # evs"
      using iteration_after_threshold [OF assms(2) m assms(3) late_h] by blast
    then show ?thesis by simp
  qed
  have trace: "fst (fatal_section env st) =
              (if \<not> (if str_in ''Import error'' m then reimport env = ImportsOk
                       else bot_module st \<and> discord_module st)
               then [RecoveryAttempt]
               else if \<not> token_ok env then [RecoveryAttempt, CheckToken]
               else if preflight_create env \<noteq> None
                 then [RecoveryAttempt, CheckToken, CreateBot]
               else if preflight_login env \<noteq> None
                 then [RecoveryAttempt, CheckToken, CreateBot, LoginTest]
               else [RecoveryAttempt, CheckToken, CreateBot, LoginTest, ClearFatal])"
    if late_h: "total_seconds (now_check env - t) > 600"
  proof -
    have "fatal_section env st = recovery env m st"
      using assms(2,3) m late_h by (simp add: fatal_section_def)
    then show ?thesis by (simp only: recovery_trace)
  qed
  show ?thesis
    using early late trace
      pass_after_failed_recovery [OF assms(2) m assms(3)]
      pass_after_successful_recovery [OF assms(2) m assms(3)]
    by blast
qed

theorem no_connection_attempt_while_fatal_witness:
  "fatal_inv token_missing_state
   \<and> fatal_error_state token_missing_state = Some ''Token Discord manquant''
   \<and> last_fatal_error_time token_missing_state = Some 0
   \<and> total_seconds (now_check (quiet_env\<lparr>now_check := 30000000\<rparr>) - 0) \<le> 600
   \<and> total_seconds (now_check (quiet_env\<lparr>now_check := 600000000\<rparr>) - 0) \<le> 600
   \<and> CreateBot \<notin> set (fst (supervisor_loop
         [(False, quiet_env\<lparr>now_check := 30000000\<rparr>),
          (False, quiet_env\<lparr>now_check := 600000000\<rparr>)] token_missing_state))
   \<and> RunBot \<notin> set (fst (supervisor_loop
         [(False, quiet_env\<lparr>now_check := 30000000\<rparr>),
          (False, quiet_env\<lparr>now_check := 600000000\<rparr>)] token_missing_state))
   \<and> total_seconds (now_check (quiet_env\<lparr>now_check := 600000001\<rparr>) - 0) > 600
   \<and> take 1 (fst (loop_iteration (quiet_env\<lparr>now_check := 600000001\<rparr>) token_missing_state))
       = [RecoveryAttempt]
   \<and> \<not> str_in ''Import error'' ''Token Discord manquant''
   \<and> bot_module token_missing_state \<and> discord_module token_missing_state
   \<and> token_ok (quiet_env\<lparr>now_check := 600000001\<rparr>)
   \<and> preflight_create (quiet_env\<lparr>now_check := 600000001\<rparr>) = None
   \<and> preflight_login (quiet_env\<lparr>now_check := 600000001\<rparr>) = None
   \<and> take 5 (fst (loop_iteration (quiet_env\<lparr>now_check := 600000001\<rparr>) token_missing_state))
       = [RecoveryAttempt, CheckToken, CreateBot, LoginTest, ClearFatal]
   \<and> \<not> token_ok (quiet_env\<lparr>now_check := 600000001, check_token_result := Inr False\<rparr>)
   \<and> fst (loop_iteration (quiet_env\<lparr>now_check := 600000001, check_token_result := Inr False\<rparr>)
        token_missing_state)
       = [RecoveryAttempt, CheckToken, Sleep 30, ClearHandle]"
proof -
  let ?late = "quiet_env\<lparr>now_check := 600000001\<rparr>"
  let ?miss = "quiet_env\<lparr>now_check := 600000001, check_token_result := Inr False\<rparr>"
  have h1: "fatal_inv token_missing_state"
    by (simp add: fatal_inv_def token_missing_state_def)
  have h2: "fatal_error_state token_missing_state = Some ''Token Discord manquant''"
    by (simp add: token_missing_state_def)
  have h3: "last_fatal_error_time token_missing_state = Some 0"
    by (simp add: token_missing_state_def)
  have h4: "\<forall>p \<in> set [(False, quiet_env\<lparr>now_check := 30000000\<rparr>),
                  (False, quiet_env\<lparr>now_check := 600000000\<rparr>)].
         total_seconds (now_check (snd p) - 0) \<le> 600"
    by (simp add: total_seconds_def)
  have h5: "total_seconds (now_check ?late - 0) > 600"
    and h5': "total_seconds (now_check ?miss - 0) > 600"
    by (simp_all add: total_seconds_def)
  have h6: "total_seconds (now_check (quiet_env\<lparr>now_check := 30000000\<rparr>) - 0) \<le> 600"
    and h7: "total_seconds (now_check (quiet_env\<lparr>now_check := 600000000\<rparr>) - 0) \<le> 600"
    by (simp_all add: total_seconds_def)
  have h8: "\<not> str_in ''Import error'' ''Token Discord manquant''"
    by simp
  have h9: "bot_module token_missing_state \<and> discord_module token_missing_state"
    by (simp add: token_missing_state_def)
  have h10: "token_ok ?late \<and> preflight_create ?late = None \<and> preflight_login ?late = None"
    by (simp add: token_ok_def quiet_env_def)
  have h11: "\<not> token_ok ?miss"
    by (simp add: token_ok_def)
  have poll: "shutdown_poll ?miss = (\<lambda>i. False)"
    by (simp add: quiet_env_def)
  have early: "CreateBot \<notin> set (fst (supervisor_loop
         [(False, quiet_env\<lparr>now_check := 30000000\<rparr>),
          (False, quiet_env\<lparr>now_check := 600000000\<rparr>)] token_missing_state))
      \<and> RunBot \<notin> set (fst (supervisor_loop
         [(False, quiet_env\<lparr>now_check := 30000000\<rparr>),
          (False, quiet_env\<lparr>now_check := 600000000\<rparr>)] token_missing_state))"
    using h4 no_connection_attempt_while_fatal [OF h1 h2 h3,
        of "[(False, quiet_env\<lparr>now_check := 30000000\<rparr>),
             (False, quiet_env\<lparr>now_check := 600000000\<rparr>)]" ?late]
    by blast
  have ok: "take 1 (fst (loop_iteration ?late token_missing_state)) = [RecoveryAttempt]
      \<and> take 5 (fst (loop_iteration ?late token_missing_state))
          = [RecoveryAttempt, CheckToken, CreateBot, LoginTest, ClearFatal]"
    using h5 h8 h9 h10 no_connection_attempt_while_fatal [OF h1 h2 h3, of "[]" ?late]
    by simp
  have bad: "fst (loop_iteration ?miss token_missing_state)
       = [RecoveryAttempt, CheckToken, Sleep 30, ClearHandle]"
    using h5' h8 h9 h11 no_connection_attempt_while_fatal [OF h1 h2 h3, of "[]" ?miss]
    by (simp add: poll sleep_loop_30)
  show ?thesis
    using h1 h2 h3 h5 h6 h7 h8 h9 h10 h11 early ok bad by simp
qed

section \<open>Rounding to a float\<close>

text \<open>
  \<open>binary_exponent\<close> finds the binade of a positive number, \<open>to_double\<close> is within half
  a unit in the last place of its argument, and it does not step over an integer below
  \<open>2^53\<close>.  \<open>total_seconds()\<close> is the quotient of two integers rounded to a float; it
  is greater than 600, or than 120, exactly when the quotient itself is.
\<close>

lemma bit_length_mono: "m \<le> n \<Longrightarrow> bit_length m \<le> bit_length n"
proof (induction n arbitrary: m rule: bit_length.induct)
  case (1 n)
  show ?case
  proof (cases "m = 0")
    case True
    then show ?thesis by (simp add: bit_length.simps)
  next
    case False
    with "1.prems" have n: "n \<noteq> 0" by simp
    have "bit_length (m div 2) \<le> bit_length (n div 2)"
      using "1.IH" [OF n, of "m div 2"] "1.prems" by (simp add: div_le_mono)
    then show ?thesis
      using False n by (simp add: bit_length.simps [of m] bit_length.simps [of n])
  qed
qed

lemma bit_length_360: "bit_length 360 = 9"
  by code_simp

lemma round_half_even_le: "q \<le> of_int k \<Longrightarrow> round_half_even q \<le> k"
proof -
  assume q: "q \<le> of_int k"
  then have f: "\<lfloor>q\<rfloor> \<le> k" by (simp add: floor_le_iff) 
  show ?thesis
  proof (cases "\<lfloor>q\<rfloor> = k")
    case True
    then have "q - of_int \<lfloor>q\<rfloor> \<le> 0" using q by simp
    then show ?thesis using True by (simp add: round_half_even_def Let_def)
  next
    case False
    with f have "\<lfloor>q\<rfloor> + 1 \<le> k" by simp
    then show ?thesis by (simp add: round_half_even_def Let_def)
  qed
qed

lemma round_half_even_ge: "of_int k \<le> q \<Longrightarrow> k \<le> round_half_even q"
proof -
  assume "of_int k \<le> q"
  then have "k \<le> \<lfloor>q\<rfloor>" by (simp add: le_floor_iff)
  then show ?thesis by (simp add: round_half_even_def Let_def)
qed

lemma to_double_nonneg: "0 \<le> x \<Longrightarrow> 0 \<le> to_double x"
proof -
  assume x: "0 \<le> x"
  have "0 \<le> round_half_even (\<bar>x\<bar> / 2 powi (binary_exponent \<bar>x\<bar> - 52))"
    by (rule round_half_even_ge) simp
  then show ?thesis
    using x by (simp add: to_double_def Let_def sgn_if)
qed

lemma binary_exponent_le:
  assumes "0 < x" "x \<le> of_nat n"
  shows "binary_exponent x \<le> int (bit_length n)"
proof (cases "1 \<le> x")
  case True
  have "nat \<lfloor>x\<rfloor> \<le> n"
    using assms(2) by (simp add: floor_le_iff nat_le_iff) 
  then have "bit_length (nat \<lfloor>x\<rfloor>) \<le> bit_length n"
    by (rule bit_length_mono)
  then show ?thesis using True by (simp add: binary_exponent_def)
next
  case False
  then show ?thesis by (simp add: binary_exponent_def)
qed

lemma to_double_le:
  assumes "0 < x" "x \<le> of_int k" "binary_exponent x \<le> 52"
  shows "to_double x \<le> of_int k"
proof -
  define m where "m = nat (52 - binary_exponent x)"
  have u: "2 powi (binary_exponent x - 52) = (1 / 2 ^ m :: rat)"
    using assms(3) by (simp add: m_def power_int_def field_simps)
  have "x * 2 ^ m \<le> of_int (k * 2 ^ m)"
    using assms(2) by simp
  then have "round_half_even (x * 2 ^ m) \<le> k * 2 ^ m"
    by (rule round_half_even_le)
  then have "(of_int (round_half_even (x * 2 ^ m)) :: rat) \<le> of_int (k * 2 ^ m)"
    by (simp only: of_int_le_iff)
  then have "(of_int (round_half_even (x * 2 ^ m)) :: rat) / 2 ^ m \<le> of_int k"
    by (simp add: field_simps)
  then show ?thesis
    using assms(1) by (simp add: to_double_def Let_def u)
qed

lemma to_double_ge:
  assumes "0 < x" "of_int k \<le> x" "binary_exponent x \<le> 52"
  shows "of_int k \<le> to_double x"
proof -
  define m where "m = nat (52 - binary_exponent x)"
  have u: "2 powi (binary_exponent x - 52) = (1 / 2 ^ m :: rat)"
    using assms(3) by (simp add: m_def power_int_def field_simps)
  have "of_int (k * 2 ^ m) \<le> x * 2 ^ m"
    using assms(2) by simp
  then have "k * 2 ^ m \<le> round_half_even (x * 2 ^ m)"
    by (rule round_half_even_ge)
  then have "(of_int (k * 2 ^ m) :: rat) \<le> of_int (round_half_even (x * 2 ^ m))"
    by (simp only: of_int_le_iff)
  then have "of_int k \<le> (of_int (round_half_even (x * 2 ^ m)) :: rat) / 2 ^ m"
    by (simp add: field_simps)
  then show ?thesis
    using assms(1) by (simp add: to_double_def Let_def u)
qed

lemma to_double_le_360:
  assumes "0 \<le> x" "x \<le> 360"
  shows "to_double x \<le> 360"
proof (cases "x = 0")
  case True
  then show ?thesis by (simp add: to_double_def)
next
  case False
  with assms have pos: "0 < x" by simp
  have "binary_exponent x \<le> int (bit_length 360)"
    using pos assms(2) binary_exponent_le [of x 360] by simp
  then have e: "binary_exponent x \<le> 52" by (simp add: bit_length_360)
  show ?thesis
    using to_double_le [OF pos _ e, of 360] assms(2) by simp
qed


lemma bit_length_bounds: "0 < n \<Longrightarrow> 2 ^ (bit_length n - 1) \<le> n \<and> n < 2 ^ bit_length n"
proof (induction n rule: bit_length.induct)
  case (1 n)
  show ?case
  proof (cases "n div 2 = 0")
    case True
    with "1.prems" have "n = 1" by (simp add: div_eq_0_iff) 
    then show ?thesis by (simp add: bit_length.simps [of "Suc 0"] bit_length.simps [of 0])
  next
    case False
    then have ih: "2 ^ (bit_length (n div 2) - 1) \<le> n div 2 \<and> n div 2 < 2 ^ bit_length (n div 2)"
      using "1.IH" "1.prems" by simp
    have pos: "0 < bit_length (n div 2)"
      using False by (simp add: bit_length.simps [of "n div 2"])
    have bl: "bit_length n = Suc (bit_length (n div 2))"
      using "1.prems" by (simp add: bit_length.simps [of n])
    have a: "2 ^ (bit_length n - 1) \<le> n"
    proof -
      have "2 ^ (bit_length n - 1) = 2 * 2 ^ (bit_length (n div 2) - 1)"
        using pos bl by (cases "bit_length (n div 2)") simp_all
      also have "\<dots> \<le> 2 * (n div 2)" using ih by simp
      also have "\<dots> \<le> n" by simp
      finally show ?thesis .
    qed
    have b: "n < 2 ^ bit_length n"
    proof -
      have "n < 2 * (n div 2 + 1)" by presburger
      also have "\<dots> \<le> 2 * 2 ^ bit_length (n div 2)" using ih by simp
      finally show ?thesis using bl by simp
    qed
    show ?thesis using a b by simp
  qed
qed

lemma binary_exponent_bounds:
  assumes "0 < x"
  shows "2 powi binary_exponent x \<le> x \<and> x < 2 powi (binary_exponent x + 1)"
proof (cases "1 \<le> x")
  case True
  define n where "n = nat \<lfloor>x\<rfloor>"
  have n: "0 < n" using True by (simp add: n_def)
  have nx: "of_nat n \<le> x \<and> x < of_nat n + 1"
    using True by (simp add: n_def) linarith
  have e: "binary_exponent x = int (bit_length n - 1)"
    using True bit_length_bounds [OF n] n
    by (cases "bit_length n") (simp_all add: binary_exponent_def n_def)
  have e1: "binary_exponent x + 1 = int (bit_length n)"
    using True bit_length_bounds [OF n] n
    by (cases "bit_length n") (simp_all add: binary_exponent_def n_def)
  have "(2 ^ (bit_length n - 1) :: rat) \<le> of_nat n"
    using bit_length_bounds [OF n] by (metis of_nat_le_iff of_nat_numeral of_nat_power)
  moreover have "(of_nat n + 1 :: rat) \<le> 2 ^ bit_length n"
  proof -
    have "n + 1 \<le> 2 ^ bit_length n" using bit_length_bounds [OF n] by simp
    then have "(of_nat (n + 1) :: rat) \<le> of_nat (2 ^ bit_length n)"
      by (simp only: of_nat_le_iff)
    then show ?thesis by simp
  qed
  moreover have "(2::rat) powi binary_exponent x = 2 ^ (bit_length n - 1)"
    unfolding e by (rule power_int_of_nat)
  moreover have "(2::rat) powi (binary_exponent x + 1) = 2 ^ bit_length n"
    unfolding e1 by (rule power_int_of_nat)
  ultimately show ?thesis
    using nx by linarith
next
  case False
  with assms have x1: "x < 1" by simp
  define m where "m = nat (\<lceil>1 / x\<rceil> - 1)"
  have inv: "1 < 1 / x" using assms x1 by simp
  then have c2: "2 \<le> \<lceil>1 / x\<rceil>" by (simp add: le_ceiling_iff)
  then have m: "0 < m" by (simp add: m_def)
  have mx: "of_nat m < 1 / x \<and> 1 / x \<le> of_nat m + 1"
  proof -
    have "of_int (\<lceil>1 / x\<rceil> - 1) < 1 / x \<and> 1 / x \<le> of_int (\<lceil>1 / x\<rceil> - 1) + 1"
      by (simp add: ceiling_correct)
    moreover have "(of_nat m :: rat) = of_int (\<lceil>1 / x\<rceil> - 1)"
    proof -
      have "0 \<le> \<lceil>1 / x\<rceil> - 1" using c2 by linarith
      then show ?thesis unfolding m_def by (rule of_nat_nat)
    qed
    ultimately show ?thesis by simp
  qed
  have e: "binary_exponent x = - int (bit_length m)"
    using False by (simp add: binary_exponent_def m_def)
  obtain k where k: "bit_length m = Suc k"
    using bit_length_bounds [OF m] m by (cases "bit_length m") auto
  have lo: "(2 ^ k :: rat) \<le> of_nat m"
    using bit_length_bounds [OF m] k by (metis diff_Suc_1 of_nat_le_iff of_nat_numeral of_nat_power)
  have hi: "(of_nat m + 1 :: rat) \<le> 2 ^ Suc k"
  proof -
    have "m + 1 \<le> 2 ^ Suc k" using bit_length_bounds [OF m] k by simp
    then have "(of_nat (m + 1) :: rat) \<le> of_nat (2 ^ Suc k)"
      by (simp only: of_nat_le_iff)
    then show ?thesis by simp
  qed
  have a: "1 / x \<le> 2 ^ Suc k" using mx hi by linarith
  have b: "(2 ^ k :: rat) < 1 / x" using mx lo by linarith
  have a': "1 / 2 ^ Suc k \<le> x"
    using a assms by (simp add: field_simps)
  have b': "x < 1 / 2 ^ k"
    using b assms by (simp add: field_simps)
  have p1: "(2::rat) powi (- int (Suc k)) = 1 / 2 ^ Suc k"
    by (simp only: power_int_minus power_int_of_nat inverse_eq_divide)
  have "- int (Suc k) + 1 = - int k" by simp
  then have p2: "(2::rat) powi (- int (Suc k) + 1) = 1 / 2 ^ k"
    by (simp only: power_int_minus power_int_of_nat inverse_eq_divide)
  show ?thesis
    unfolding e k p1 p2 using a' b' by simp
qed

lemma round_half_even_near: "\<bar>of_int (round_half_even q) - q\<bar> \<le> 1 / 2"
proof -
  have "of_int \<lfloor>q\<rfloor> \<le> q \<and> q < of_int \<lfloor>q\<rfloor> + 1"
    using floor_correct [of q] by simp
  then show ?thesis
    by (auto simp: round_half_even_def Let_def abs_if; linarith)
qed

lemma to_double_near:
  assumes "0 < x"
  shows "\<bar>to_double x - x\<bar> \<le> 2 powi (binary_exponent x - 53)"
proof -
  define u :: rat where "u = 2 powi (binary_exponent x - 52)"
  define n :: rat where "n = of_int (round_half_even (x / u))"
  have u0: "0 < u" by (simp add: u_def)
  have td: "to_double x = n * u"
    using assms by (simp add: to_double_def Let_def u_def n_def)
  have near: "\<bar>n - x / u\<bar> \<le> 1 / 2"
    unfolding n_def by (rule round_half_even_near)
  have half: "1 / 2 * u = 2 powi (binary_exponent x - 53)"
  proof -
    have "(2::rat) powi ((binary_exponent x - 53) + 1)
        = 2 powi (binary_exponent x - 53) * 2 powi 1"
      by (rule power_int_add) simp
    then have "u = 2 powi (binary_exponent x - 53) * 2"
      unfolding u_def by simp
    then show ?thesis by simp
  qed
  have "n * u - x = (n - x / u) * u"
    using u0 by (simp add: field_simps)
  then have "\<bar>n * u - x\<bar> = \<bar>n - x / u\<bar> * u"
    using u0 by (simp add: abs_mult)
  also have "\<dots> \<le> 1 / 2 * u"
    using near u0 by (simp only: mult_le_cancel_right_pos)
  finally show ?thesis
    unfolding td half .
qed

lemma to_double_nonpos: "x \<le> 0 \<Longrightarrow> to_double x \<le> 0"
proof -
  assume x: "x \<le> 0"
  have "0 \<le> round_half_even (\<bar>x\<bar> / 2 powi (binary_exponent \<bar>x\<bar> - 52))"
    by (rule round_half_even_ge) simp
  then have "0 \<le> (of_int (round_half_even (\<bar>x\<bar> / 2 powi (binary_exponent \<bar>x\<bar> - 52))) :: rat)
      * 2 powi (binary_exponent \<bar>x\<bar> - 52)"
    by simp
  then show ?thesis
    using x by (simp add: to_double_def Let_def sgn_if mult.assoc)
qed

lemma bit_length_1024: "bit_length 1024 = 11"
  by code_simp

lemma to_double_above:
  assumes "0 < x"
  shows "x - x / 2 ^ 53 \<le> to_double x"
proof -
  have "(2::rat) powi (binary_exponent x - 53) = 2 powi binary_exponent x / 2 powi 53"
    by (rule power_int_diff) simp
  also have "\<dots> \<le> x / 2 powi 53"
    using binary_exponent_bounds [OF assms] by (simp add: divide_right_mono)
  finally have "(2::rat) powi (binary_exponent x - 53) \<le> x / 2 ^ 53"
    by simp
  then show ?thesis
    using to_double_near [OF assms] by (simp add: abs_le_iff) 
qed

lemma to_double_gt_int:
  fixes d K :: int
  assumes "0 < K" "K < 1024"
  shows "of_int K < to_double (of_int d / 1000000) \<longleftrightarrow> (of_int K :: rat) < of_int d / 1000000"
proof
  assume gt: "of_int K < to_double (of_int d / 1000000)"
  have k0: "(0::rat) < of_int K" using assms(1) by simp
  have k1: "(of_int K :: rat) < 1024" using assms(2) by simp
  show "(of_int K :: rat) < of_int d / 1000000"
  proof (rule ccontr)
    assume "\<not> (of_int K :: rat) < of_int d / 1000000"
    then have le: "(of_int d / 1000000 :: rat) \<le> of_int K" by simp
    show False
    proof (cases "(of_int d / 1000000 :: rat) \<le> 0")
      case True
      then have "to_double (of_int d / 1000000) \<le> 0" by (rule to_double_nonpos)
      then show False using gt k0 by linarith
    next
      case False
      then have pos: "(0::rat) < of_int d / 1000000" by simp
      have "(of_nat 1024 :: rat) = 1024" by simp
      then have le': "(of_int d / 1000000 :: rat) \<le> of_nat 1024"
        using le k1 by linarith
      have "binary_exponent (of_int d / 1000000) \<le> int (bit_length 1024)"
        using pos le' by (rule binary_exponent_le)
      then have e: "binary_exponent (of_int d / 1000000) \<le> 52"
        by (simp add: bit_length_1024)
      have "to_double (of_int d / 1000000) \<le> of_int K"
        using pos le e by (rule to_double_le)
      then show False using gt by linarith
    qed
  qed
next
  assume gt: "(of_int K :: rat) < of_int d / 1000000"
  define q :: rat where "q = of_int d / 1000000"
  have k0: "(0::rat) < of_int K" using assms(1) by simp
  have k1: "(of_int K :: rat) < 1024" using assms(2) by simp
  have pos: "0 < q" using gt k0 unfolding q_def by linarith
  have "(of_int K :: rat) * 1000000 < of_int d"
    using gt by (simp add: pos_less_divide_eq)
  then have "(of_int (K * 1000000) :: rat) < of_int d" by simp
  then have "K * 1000000 < d" by (simp only: of_int_less_iff)
  then have "K * 1000000 + 1 \<le> d" by simp
  then have "(of_int (K * 1000000 + 1) :: rat) \<le> of_int d" by (simp only: of_int_le_iff)
  then have "of_int K * 1000000 + 1 \<le> (of_int d :: rat)" by simp
  then have "(of_int K * 1000000 + 1) / 1000000 \<le> (of_int d :: rat) / 1000000"
    by (rule divide_right_mono) simp
  then have step: "of_int K + 1 / 1000000 \<le> q"
    unfolding q_def by (simp add: add_divide_distrib)
  have small: "q / 9007199254740992 < 1 / 1000000" if "q \<le> 2048"
  proof -
    have "q / 9007199254740992 \<le> 2048 / 9007199254740992"
      using that by (rule divide_right_mono) simp
    also have "\<dots> < (1 / 1000000 :: rat)" by simp
    finally show ?thesis .
  qed
  have large: "q / 9007199254740992 \<le> q / 2"
    using pos by simp
  have p53: "(2::rat) ^ 53 = 9007199254740992" by simp
  have "of_int K < q - q / 9007199254740992"
  proof (cases "q \<le> 2048")
    case True
    then show ?thesis using small step by linarith
  next
    case False
    then show ?thesis using large k1 by linarith
  qed
  then have "of_int K < to_double q"
    using to_double_above [OF pos] unfolding p53 by linarith
  then show "of_int K < to_double (of_int d / 1000000)"
    unfolding q_def .
qed

lemma float_seconds_gt_600:
  "600 < to_double (total_seconds d) \<longleftrightarrow> 600 < total_seconds d"
  using to_double_gt_int [of 600 d] by (simp add: total_seconds_def)

lemma float_seconds_gt_120:
  "120 < to_double (total_seconds d) \<longleftrightarrow> 120 < total_seconds d"
  using to_double_gt_int [of 120 d] by (simp add: total_seconds_def)

section \<open>Backoff after a transient failure\<close>

lemma wait_time_nonneg: "0 \<le> j \<Longrightarrow> 0 \<le> wait_time rc j"
  by (simp add: wait_time_def to_double_nonneg)

lemma wait_time_le:
  assumes "0 \<le> j" "j \<le> 6 / 5"
  shows "wait_time rc j \<le> 360"
proof -
  have "(of_nat (backoff rc) :: rat) \<le> 300"
    using backoff_le_max [of rc] by (metis of_nat_le_iff of_nat_numeral)
  then have "of_nat (backoff rc) * j \<le> 300 * (6 / 5)"
    using assms by (intro mult_mono) auto
  then have "of_nat (backoff rc) * j \<le> 360" by simp
  moreover have "0 \<le> of_nat (backoff rc) * j" using assms(1) by simp
  ultimately show ?thesis
    unfolding wait_time_def by (intro to_double_le_360)
qed

lemma backoff_1: "backoff (Suc 0) = 4"
  by (simp add: backoff_def base_delay_def max_delay_def)

lemma backoff_9: "backoff 9 = 300"
  by (simp add: backoff_def base_delay_def max_delay_def)

lemma to_double_0_9: "to_double (4 * jitter_0_9) = 8106479329266893 / 2251799813685248"
  by code_simp

lemma to_double_0_83: "to_double (300 * jitter_0_83) = 249"
  by code_simp

lemma exact_0_83: "\<lfloor>300 * jitter_0_83\<rfloor> = 248"
  unfolding jitter_0_83_def by (rule floor_unique) simp_all

lemma wait_time_example: "wait_time (Suc 0) jitter_0_9 = 8106479329266893 / 2251799813685248"
  by (simp add: wait_time_def backoff_1 to_double_0_9)

lemma wait_time_0_83: "wait_time 9 jitter_0_83 = 249"
  by (simp add: wait_time_def backoff_9 to_double_0_83)

lemma floor_example: "nat \<lfloor>8106479329266893 / 2251799813685248 :: rat\<rfloor> = 3"
proof -
  have "\<lfloor>8106479329266893 / 2251799813685248 :: rat\<rfloor> = 3"
    by (rule floor_unique) simp_all
  then show ?thesis by simp
qed

lemma sleep_loop_3: "sleep_loop 3 (\<lambda>i. False) 0 = 3"
  by (rule sleep_loop_all) simp

lemma sleep_loop_interrupted: "sleep_loop 3 (\<lambda>i. 1 \<le> i) 0 = 1"
  by (rule sleep_loop_first) simp_all

text \<open>
  Claim C2, as the code has it.  Let an exception reach the second \<open>except\<close> clause with
  a class name other than \<open>LoginFailure\<close>, let no shutdown be requested and let the jitter
  lie in \<open>[0.8, 1.2]\<close>.  Then the supervisor adds one to \<open>retry_count\<close>; the delay it
  computes is the float product of \<open>min(2 * 2^min(retry_count, 8), 300)\<close> and the jitter,
  taken at the new count; it sleeps the whole seconds of that delay, one second at a
  time: all of them when no poll of the shutdown event sees it set, and otherwise as many
  as there are polls before the first one that sees it set.  The delay is at most 360
  seconds, and the delay without jitter never decreases when the count grows.
\<close>

theorem transient_failure_backoff:
  assumes "\<not> caught_as_configuration st e" "type_name e \<noteq> ''LoginFailure''"
    "\<not> shutdown_in_handler env" "4 / 5 \<le> jitter env" "jitter env \<le> 6 / 5"
  shows "handle_exception env e st =
           ([Sleep (sleep_loop (nat \<lfloor>wait_time (retry_count st + 1) (jitter env)\<rfloor>)
                      (shutdown_poll env) 0)],
            st\<lparr>retry_count := retry_count st + 1\<rparr>, False)
       \<and> wait_time (retry_count st + 1) (jitter env)
           = to_double (of_nat (min (2 * 2 ^ min (retry_count st + 1) 8) 300) * jitter env)
       \<and> sleep_loop (nat \<lfloor>wait_time (retry_count st + 1) (jitter env)\<rfloor>) (shutdown_poll env) 0
           \<le> nat \<lfloor>wait_time (retry_count st + 1) (jitter env)\<rfloor>
       \<and> ((\<forall>k < nat \<lfloor>wait_time (retry_count st + 1) (jitter env)\<rfloor>. \<not> shutdown_poll env k) \<longrightarrow>
            sleep_loop (nat \<lfloor>wait_time (retry_count st + 1) (jitter env)\<rfloor>) (shutdown_poll env) 0
              = nat \<lfloor>wait_time (retry_count st + 1) (jitter env)\<rfloor>)
       \<and> (\<forall>m < nat \<lfloor>wait_time (retry_count st + 1) (jitter env)\<rfloor>.
            shutdown_poll env m \<and> (\<forall>k<m. \<not> shutdown_poll env k) \<longrightarrow>
            sleep_loop (nat \<lfloor>wait_time (retry_count st + 1) (jitter env)\<rfloor>) (shutdown_poll env) 0
              = m)
       \<and> wait_time (retry_count st + 1) (jitter env) \<le> 360
       \<and> (\<forall>a b. a \<le> b \<longrightarrow> backoff a \<le> backoff b)"
proof -
  let ?n = "nat \<lfloor>wait_time (retry_count st + 1) (jitter env)\<rfloor>"
  have j0: "0 \<le> jitter env" using assms(4) by simp
  have "py_int (wait_time (retry_count st + 1) (jitter env))
          = \<lfloor>wait_time (retry_count st + 1) (jitter env)\<rfloor>"
    using wait_time_nonneg [OF j0] by (simp add: py_int_def)
  then have 1: "handle_exception env e st =
           ([Sleep (sleep_loop ?n (shutdown_poll env) 0)],
            st\<lparr>retry_count := retry_count st + 1\<rparr>, False)"
    using assms(1-3) by (simp add: handle_exception_def)
  have 2: "wait_time (retry_count st + 1) (jitter env)
           = to_double (of_nat (min (2 * 2 ^ min (retry_count st + 1) 8) 300) * jitter env)"
    by (simp add: wait_time_def backoff_def base_delay_def max_delay_def)
  have 3: "(\<forall>k < ?n. \<not> shutdown_poll env k) \<longrightarrow> sleep_loop ?n (shutdown_poll env) 0 = ?n"
    using sleep_loop_all [of ?n "shutdown_poll env" 0] by simp
  have 4: "\<forall>m < ?n. shutdown_poll env m \<and> (\<forall>k<m. \<not> shutdown_poll env k) \<longrightarrow>
            sleep_loop ?n (shutdown_poll env) 0 = m"
    using sleep_loop_first [of _ ?n "shutdown_poll env" 0] by simp
  show ?thesis
    using 1 2 3 4 sleep_loop_le wait_time_le [OF j0 assms(5)] backoff_mono by blast
qed

theorem transient_failure_backoff_witness:
  "\<not> caught_as_configuration running_state connection_reset
   \<and> type_name connection_reset \<noteq> ''LoginFailure''
   \<and> \<not> shutdown_in_handler (quiet_env\<lparr>jitter := jitter_0_9\<rparr>)
   \<and> 4 / 5 \<le> jitter (quiet_env\<lparr>jitter := jitter_0_9\<rparr>)
   \<and> jitter (quiet_env\<lparr>jitter := jitter_0_9\<rparr>) \<le> 6 / 5
   \<and> handle_exception (quiet_env\<lparr>jitter := jitter_0_9\<rparr>) connection_reset running_state
       = ([Sleep 3], running_state\<lparr>retry_count := 1\<rparr>, False)
   \<and> wait_time 1 jitter_0_9 = 8106479329266893 / 2251799813685248
   \<and> shutdown_poll (quiet_env\<lparr>jitter := jitter_0_9, shutdown_poll := (\<lambda>i. 1 \<le> i)\<rparr>) 1
   \<and> \<not> shutdown_poll (quiet_env\<lparr>jitter := jitter_0_9, shutdown_poll := (\<lambda>i. 1 \<le> i)\<rparr>) 0
   \<and> handle_exception (quiet_env\<lparr>jitter := jitter_0_9, shutdown_poll := (\<lambda>i. 1 \<le> i)\<rparr>)
        connection_reset running_state
       = ([Sleep 1], running_state\<lparr>retry_count := 1\<rparr>, False)
   \<and> handle_exception (quiet_env\<lparr>jitter := jitter_0_83\<rparr>) connection_reset
        (running_state\<lparr>retry_count := 8\<rparr>)
       = ([Sleep 249], running_state\<lparr>retry_count := 9\<rparr>, False)"
proof -
  let ?e1 = "quiet_env\<lparr>jitter := jitter_0_9\<rparr>"
  let ?e2 = "quiet_env\<lparr>jitter := jitter_0_9, shutdown_poll := (\<lambda>i. 1 \<le> i)\<rparr>"
  let ?e3 = "quiet_env\<lparr>jitter := jitter_0_83\<rparr>"
  have h1: "\<not> caught_as_configuration running_state connection_reset"
    and h1': "\<not> caught_as_configuration (running_state\<lparr>retry_count := 8\<rparr>) connection_reset"
    by (simp_all add: caught_as_configuration_def running_state_def connection_reset_def)
  have h2: "type_name connection_reset \<noteq> ''LoginFailure''"
    by (simp add: connection_reset_def)
  have h3: "\<not> shutdown_in_handler ?e1" "\<not> shutdown_in_handler ?e2" "\<not> shutdown_in_handler ?e3"
    by (simp_all add: quiet_env_def)
  have h4: "4 / 5 \<le> jitter ?e1" "4 / 5 \<le> jitter ?e2" "4 / 5 \<le> jitter ?e3"
    and h5: "jitter ?e1 \<le> 6 / 5" "jitter ?e2 \<le> 6 / 5" "jitter ?e3 \<le> 6 / 5"
    by (simp_all add: jitter_0_9_def jitter_0_83_def)
  have rc: "retry_count running_state = 0"
    by (simp add: running_state_def)
  have poll: "shutdown_poll ?e1 = (\<lambda>i. False)" "shutdown_poll ?e3 = (\<lambda>i. False)"
    by (simp_all add: quiet_env_def)
  have s249: "sleep_loop 249 (\<lambda>i. False) 0 = 249"
    by (rule sleep_loop_all) simp
  have a: "handle_exception ?e1 connection_reset running_state
       = ([Sleep 3], running_state\<lparr>retry_count := 1\<rparr>, False)"
    using transient_failure_backoff [OF h1 h2 h3(1) h4(1) h5(1)]
    by (simp add: rc wait_time_example floor_example poll sleep_loop_3)
  have b: "handle_exception ?e2 connection_reset running_state
       = ([Sleep 1], running_state\<lparr>retry_count := 1\<rparr>, False)"
    using transient_failure_backoff [OF h1 h2 h3(2) h4(2) h5(2)]
    by (simp add: rc wait_time_example floor_example sleep_loop_interrupted)
  have c: "handle_exception ?e3 connection_reset (running_state\<lparr>retry_count := 8\<rparr>)
       = ([Sleep 249], running_state\<lparr>retry_count := 9\<rparr>, False)"
    using transient_failure_backoff [OF h1' h2 h3(3) h4(3) h5(3)]
    by (simp add: wait_time_0_83 poll s249)
  show ?thesis
    using h1 h2 h3 h4 h5 a b c by (simp add: wait_time_example)
qed

text \<open>
  The seconds slept are not the computed delay: after a first failure with the jitter
  0.9 the delay is 3.6 seconds and the supervisor sleeps 3.
\<close>

theorem slept_delay_counterexample:
  "fst (handle_exception (quiet_env\<lparr>jitter := jitter_0_9\<rparr>) connection_reset running_state)
     = [Sleep 3]
   \<and> retry_count (fst (snd (handle_exception (quiet_env\<lparr>jitter := jitter_0_9\<rparr>)
        connection_reset running_state))) = 1
   \<and> min (2 * 2 ^ min 1 8) 300 * jitter_0_9 = 8106479329266893 / 2251799813685248
   \<and> of_nat 3 \<noteq> (8106479329266893 / 2251799813685248 :: rat)"
proof -
  have "handle_exception (quiet_env\<lparr>jitter := jitter_0_9\<rparr>) connection_reset running_state
       = ([Sleep 3], running_state\<lparr>retry_count := 1\<rparr>, False)"
    by (simp add: handle_exception_def caught_as_configuration_def running_state_def
        connection_reset_def quiet_env_def wait_time_example floor_example py_int_def sleep_loop_3)
  then show ?thesis by (simp add: jitter_0_9_def)
qed

section \<open>The preflight validation\<close>

lemma reimport_block_globals:
  "fatal_error_state (fst (reimport_block imp st)) = fatal_error_state st
   \<and> last_fatal_error_time (fst (reimport_block imp st)) = last_fatal_error_time st
   \<and> retry_count (fst (reimport_block imp st)) = retry_count st
   \<and> current_bot_instance (fst (reimport_block imp st)) = current_bot_instance st"
  by (cases imp) simp_all

lemma reimport_block_raises: "snd (reimport_block imp st) = None \<longleftrightarrow> imp = ImportsOk"
  by (cases imp) simp_all

lemma reimport_block_ok:
  "reimport_block ImportsOk st = (st\<lparr>bot_module := True, discord_module := True\<rparr>, None)"
  by simp

lemma recovery_cases:
  "(fatal_error_state (snd (recovery env cfs st)) = None
      \<and> last_fatal_error_time (snd (recovery env cfs st)) = None
      \<and> retry_count (snd (recovery env cfs st)) = 0)
   \<or> (fatal_error_state (snd (recovery env cfs st)) = fatal_error_state st
      \<and> last_fatal_error_time (snd (recovery env cfs st)) = last_fatal_error_time st
      \<and> retry_count (snd (recovery env cfs st)) = retry_count st)"
proof (cases "str_in ''Import error'' cfs")
  case True
  then show ?thesis
    using reimport_block_globals [of "reimport env" st]
    by (cases "reimport_block (reimport env) st")
       (auto simp: recovery_def split: option.splits sum.splits)
next
  case False
  then show ?thesis
    by (auto simp: recovery_def split: option.splits sum.splits)
qed

lemma recovery_success:
  assumes "if str_in ''Import error'' cfs then reimport env = ImportsOk
           else bot_module st \<and> discord_module st"
    "token_ok env" "preflight_create env = None" "preflight_login env = None"
  shows "fatal_error_state (snd (recovery env cfs st)) = None
      \<and> last_fatal_error_time (snd (recovery env cfs st)) = None
      \<and> retry_count (snd (recovery env cfs st)) = 0"
  using assms by (auto simp: recovery_def token_ok_def split: if_splits)

lemma recovery_exception:
  assumes "(str_in ''Import error'' cfs \<and> reimport env \<noteq> ImportsOk)
           \<or> isl (check_token_result env)
           \<or> preflight_create env \<noteq> None \<or> preflight_login env \<noteq> None"
  shows "fatal_error_state (snd (recovery env cfs st)) = fatal_error_state st
      \<and> last_fatal_error_time (snd (recovery env cfs st)) = last_fatal_error_time st"
proof -
  have "\<not> token_ok env" if "isl (check_token_result env)"
    using that by (auto simp: token_ok_def)
  then have "ClearFatal \<notin> set (fst (recovery env cfs st))"
    using assms by (auto simp: recovery_trace)
  then show ?thesis
    by (rule recovery_not_cleared)
qed

lemma thread_step_lock_inv:
  assumes "lock_inv pre ws s"
  shows "lock_inv pre ws (thread_step t s)"
proof (cases t)
  case Supervisor
  show ?thesis
  proof (cases "supervisor s")
    case (SupBefore ws')
    then show ?thesis
      using assms Supervisor
      by (auto simp: lock_inv_def split: reporter_pc.splits)
  next
    case (SupInside ws')
    then show ?thesis
      using assms Supervisor
      by (cases ws') (auto simp: lock_inv_def split: reporter_pc.splits)
  next
    case SupAfter
    then show ?thesis
      using assms Supervisor by (simp add: lock_inv_def)
  qed
next
  case Reporter
  show ?thesis
  proof (cases "reporter s")
    case RepBefore
    then show ?thesis
      using assms Reporter
      by (auto simp: lock_inv_def split: supervisor_pc.splits)
  next
    case RepInside
    then show ?thesis
      using assms Reporter
      by (auto simp: lock_inv_def split: supervisor_pc.splits)
  next
    case (RepReadState f)
    then show ?thesis
      using assms Reporter
      by (auto simp: lock_inv_def split: supervisor_pc.splits)
  next
    case (RepReadBoth f t')
    then show ?thesis
      using assms Reporter
      by (auto simp: lock_inv_def split: supervisor_pc.splits)
  next
    case (RepAfter f t')
    then show ?thesis
      using assms Reporter by (simp add: lock_inv_def)
  qed
qed

lemma run_schedule_lock_inv:
  "lock_inv pre ws s \<Longrightarrow> lock_inv pre ws (run_schedule sched s)"
  by (induction sched arbitrary: s) (simp_all add: thread_step_lock_inv)

lemma region_start_lock_inv:
  "lock_inv (shared_of st) (fatal_section_writes env st) (region_start env st)"
  by (simp add: lock_inv_def region_start_def)

lemma fatal_section_writes_link:
  "fatal_error_state (fold apply_write (fatal_section_writes env st) (shared_of st))
     = fatal_error_state (snd (fatal_section env st))
   \<and> last_fatal_error_time (fold apply_write (fatal_section_writes env st) (shared_of st))
     = last_fatal_error_time (snd (fatal_section env st))"
proof (cases "\<exists>cfs t. fatal_error_state st = Some cfs \<and> last_fatal_error_time st = Some t
    \<and> cfs \<noteq> [] \<and> total_seconds (now_check env - t) > 600")
  case True
  then obtain cfs t where c: "fatal_error_state st = Some cfs" "last_fatal_error_time st = Some t"
    "cfs \<noteq> []" "total_seconds (now_check env - t) > 600" by blast
  then have fs: "fatal_section env st = recovery env cfs st"
    by (simp add: fatal_section_def)
  show ?thesis
    using recovery_cleared [of env cfs st] recovery_not_cleared [of env cfs st]
    by (cases "ClearFatal \<in> set (fst (recovery env cfs st))")
       (simp_all add: fatal_section_writes_def fs shared_of_def)
next
  case False
  then have "fatal_section env st = ([], st)"
    by (auto simp: fatal_section_def split: option.splits)
  then show ?thesis
    by (simp add: fatal_section_writes_def shared_of_def)
qed

lemma reader_sees_pre_or_post:
  assumes "reporter (run_schedule sched (region_start env st)) = RepAfter f t'"
  shows "(f = fatal_error_state st \<and> t' = last_fatal_error_time st)
       \<or> (f = fatal_error_state (snd (fatal_section env st))
          \<and> t' = last_fatal_error_time (snd (fatal_section env st)))"
proof -
  have "lock_inv (shared_of st) (fatal_section_writes env st)
          (run_schedule sched (region_start env st))"
    by (rule run_schedule_lock_inv) (rule region_start_lock_inv)
  then show ?thesis
    using assms fatal_section_writes_link [of env st]
    by (auto simp: lock_inv_def shared_of_def)
qed

lemma supervisor_done_post:
  assumes "supervisor (run_schedule sched (region_start env st)) = SupAfter"
  shows "fatal_error_state (shared (run_schedule sched (region_start env st)))
           = fatal_error_state (snd (fatal_section env st))
       \<and> last_fatal_error_time (shared (run_schedule sched (region_start env st)))
           = last_fatal_error_time (snd (fatal_section env st))"
proof -
  have "lock_inv (shared_of st) (fatal_section_writes env st)
          (run_schedule sched (region_start env st))"
    by (rule run_schedule_lock_inv) (rule region_start_lock_inv)
  then show ?thesis
    using assms fatal_section_writes_link [of env st]
    by (auto simp: lock_inv_def)
qed

lemma import_error_recovery_writes:
  "fatal_section_writes (quiet_env\<lparr>now_check := 601000000\<rparr>) import_error_state
     = [WriteFatalState None, WriteFatalTime None]"
proof -
  have "fatal_section (quiet_env\<lparr>now_check := 601000000\<rparr>) import_error_state
     = recovery (quiet_env\<lparr>now_check := 601000000\<rparr>) ''Import error: No module named bot''
         import_error_state"
    by (simp add: fatal_section_def import_error_state_def total_seconds_def)
  moreover have "fst (recovery (quiet_env\<lparr>now_check := 601000000\<rparr>)
      ''Import error: No module named bot'' import_error_state)
     = [RecoveryAttempt, CheckToken, CreateBot, LoginTest, ClearFatal]"
    by (simp add: recovery_trace token_ok_def quiet_env_def)
  ultimately show ?thesis
    by (simp add: fatal_section_writes_def)
qed

lemma import_error_region_start:
  "region_start (quiet_env\<lparr>now_check := 601000000\<rparr>) import_error_state
   = \<lparr>shared = \<lparr>fatal_error_state = Some ''Import error: No module named bot'',
                 last_fatal_error_time = Some 0, current_bot_instance = None\<rparr>,
      fatal_error_lock = None,
      supervisor = SupBefore [WriteFatalState None, WriteFatalTime None],
      reporter = RepBefore\<rparr>"
proof -
  have "shared_of import_error_state
      = \<lparr>fatal_error_state = Some ''Import error: No module named bot'',
         last_fatal_error_time = Some 0, current_bot_instance = None\<rparr>"
    by (simp add: shared_of_def import_error_state_def)
  then show ?thesis
    by (simp only: region_start_def import_error_recovery_writes)
qed

lemma reader_waits_for_supervisor:
  "run_schedule
     [Supervisor, Supervisor, Reporter, Supervisor, Supervisor,
      Reporter, Reporter, Reporter, Reporter]
     (region_start (quiet_env\<lparr>now_check := 601000000\<rparr>) import_error_state)
   = \<lparr>shared = \<lparr>fatal_error_state = None, last_fatal_error_time = None,
                 current_bot_instance = None\<rparr>,
      fatal_error_lock = None, supervisor = SupAfter, reporter = RepAfter None None\<rparr>"
  unfolding import_error_region_start by simp

lemma supervisor_waits_for_reader:
  "run_schedule
     [Reporter, Supervisor, Reporter, Supervisor, Reporter, Reporter,
      Supervisor, Supervisor, Supervisor, Supervisor]
     (region_start (quiet_env\<lparr>now_check := 601000000\<rparr>) import_error_state)
   = \<lparr>shared = \<lparr>fatal_error_state = None, last_fatal_error_time = None,
                 current_bot_instance = None\<rparr>,
      fatal_error_lock = None, supervisor = SupAfter,
      reporter = RepAfter (Some ''Import error: No module named bot'') (Some 0)\<rparr>"
  unfolding import_error_region_start by simp

text \<open>
  Claim C3.  Let the fatal error be set for more than 600 seconds, so that the region
  under \<open>fatal_error_lock\<close> runs the recovery.  If the re-import (needed when the message
  contains \<open>Import error\<close>) succeeds, or the modules are there, and the token is present
  and creating the test bot and the login test raise nothing, then the region ends with
  \<open>fatal_error_state\<close> and \<open>last_fatal_error_time\<close> cleared and \<open>retry_count\<close> at 0.  If
  the re-import, \<open>check_token\<close>, the creation or the login test raises, both variables
  are as before.  In every case the region ends with all three cleared or all three
  untouched.  A reader that takes \<open>fatal_error_lock\<close> and reads the two variables, as
  \<open>health_check\<close> does, running beside the supervisor in any order of their statements,
  ends with the two values from before the region or with both cleared, never with one
  of each; and when the supervisor has left the region, the shared variables are what
  the region computes.
\<close>

theorem preflight_clears_or_keeps_fatal:
  assumes "fatal_inv st" "fatal_error_state st = Some cfs" "last_fatal_error_time st = Some t"
    "total_seconds (now_check env - t) > 600"
  shows "((if str_in ''Import error'' cfs then reimport env = ImportsOk
           else bot_module st \<and> discord_module st)
          \<and> token_ok env \<and> preflight_create env = None \<and> preflight_login env = None
          \<longrightarrow> fatal_error_state (snd (fatal_section env st)) = None
            \<and> last_fatal_error_time (snd (fatal_section env st)) = None
            \<and> retry_count (snd (fatal_section env st)) = 0)
       \<and> ((str_in ''Import error'' cfs \<and> reimport env \<noteq> ImportsOk)
           \<or> isl (check_token_result env)
           \<or> preflight_create env \<noteq> None \<or> preflight_login env \<noteq> None
          \<longrightarrow> fatal_error_state (snd (fatal_section env st)) = Some cfs
            \<and> last_fatal_error_time (snd (fatal_section env st)) = Some t)
       \<and> ((fatal_error_state (snd (fatal_section env st)) = None
            \<and> last_fatal_error_time (snd (fatal_section env st)) = None
            \<and> retry_count (snd (fatal_section env st)) = 0)
          \<or> (fatal_error_state (snd (fatal_section env st)) = Some cfs
            \<and> last_fatal_error_time (snd (fatal_section env st)) = Some t
            \<and> retry_count (snd (fatal_section env st)) = retry_count st))
       \<and> (\<forall>sched f t'.
            reporter (run_schedule sched (region_start env st)) = RepAfter f t'
            \<longrightarrow> (f = Some cfs \<and> t' = Some t)
              \<or> (f = None \<and> t' = None
                 \<and> fatal_error_state (snd (fatal_section env st)) = None))
       \<and> (\<forall>sched.
            supervisor (run_schedule sched (region_start env st)) = SupAfter
            \<longrightarrow> fatal_error_state (shared (run_schedule sched (region_start env st)))
                  = fatal_error_state (snd (fatal_section env st))
              \<and> last_fatal_error_time (shared (run_schedule sched (region_start env st)))
                  = last_fatal_error_time (snd (fatal_section env st)))"
proof -
  have "cfs \<noteq> []"
    using assms(1,2) by (simp add: fatal_inv_def)
  then have fs: "fatal_section env st = recovery env cfs st"
    using assms(2-4) by (simp add: fatal_section_def)
  have seq: "((if str_in ''Import error'' cfs then reimport env = ImportsOk
           else bot_module st \<and> discord_module st)
          \<and> token_ok env \<and> preflight_create env = None \<and> preflight_login env = None
          \<longrightarrow> fatal_error_state (snd (fatal_section env st)) = None
            \<and> last_fatal_error_time (snd (fatal_section env st)) = None
            \<and> retry_count (snd (fatal_section env st)) = 0)
       \<and> ((str_in ''Import error'' cfs \<and> reimport env \<noteq> ImportsOk)
           \<or> isl (check_token_result env)
           \<or> preflight_create env \<noteq> None \<or> preflight_login env \<noteq> None
          \<longrightarrow> fatal_error_state (snd (fatal_section env st)) = Some cfs
            \<and> last_fatal_error_time (snd (fatal_section env st)) = Some t)
       \<and> ((fatal_error_state (snd (fatal_section env st)) = None
            \<and> last_fatal_error_time (snd (fatal_section env st)) = None
            \<and> retry_count (snd (fatal_section env st)) = 0)
          \<or> (fatal_error_state (snd (fatal_section env st)) = Some cfs
            \<and> last_fatal_error_time (snd (fatal_section env st)) = Some t
            \<and> retry_count (snd (fatal_section env st)) = retry_count st))"
    unfolding fs
    using recovery_success [of cfs env st] recovery_exception [of cfs env st]
      recovery_cases [of env cfs st] assms(2,3)
    by presburger
  have reader: "(f = Some cfs \<and> t' = Some t)
              \<or> (f = None \<and> t' = None
                 \<and> fatal_error_state (snd (fatal_section env st)) = None)"
    if "reporter (run_schedule sched (region_start env st)) = RepAfter f t'" for sched f t'
    using reader_sees_pre_or_post [OF that] seq assms(2,3) by auto
  have writer: "fatal_error_state (shared (run_schedule sched (region_start env st)))
                  = fatal_error_state (snd (fatal_section env st))
              \<and> last_fatal_error_time (shared (run_schedule sched (region_start env st)))
                  = last_fatal_error_time (snd (fatal_section env st))"
    if "supervisor (run_schedule sched (region_start env st)) = SupAfter" for sched
    using that by (rule supervisor_done_post)
  show ?thesis
    using seq reader writer by blast
qed

theorem preflight_clears_or_keeps_fatal_witness:
  "fatal_inv import_error_state
   \<and> fatal_error_state import_error_state = Some ''Import error: No module named bot''
   \<and> last_fatal_error_time import_error_state = Some 0
   \<and> total_seconds (now_check (quiet_env\<lparr>now_check := 601000000\<rparr>) - 0) > 600
   \<and> str_in ''Import error'' ''Import error: No module named bot''
   \<and> reimport (quiet_env\<lparr>now_check := 601000000\<rparr>) = ImportsOk
   \<and> token_ok (quiet_env\<lparr>now_check := 601000000\<rparr>)
   \<and> preflight_create (quiet_env\<lparr>now_check := 601000000\<rparr>) = None
   \<and> preflight_login (quiet_env\<lparr>now_check := 601000000\<rparr>) = None
   \<and> fatal_error_state (snd (fatal_section (quiet_env\<lparr>now_check := 601000000\<rparr>)
        import_error_state)) = None
   \<and> last_fatal_error_time (snd (fatal_section (quiet_env\<lparr>now_check := 601000000\<rparr>)
        import_error_state)) = None
   \<and> retry_count (snd (fatal_section (quiet_env\<lparr>now_check := 601000000\<rparr>)
        import_error_state)) = 0
   \<and> preflight_login (quiet_env\<lparr>now_check := 601000000, preflight_login := Some login_failure\<rparr>)
        \<noteq> None
   \<and> fatal_error_state (snd (fatal_section
        (quiet_env\<lparr>now_check := 601000000, preflight_login := Some login_failure\<rparr>)
        import_error_state)) = Some ''Import error: No module named bot''
   \<and> last_fatal_error_time (snd (fatal_section
        (quiet_env\<lparr>now_check := 601000000, preflight_login := Some login_failure\<rparr>)
        import_error_state)) = Some 0
   \<and> isl (check_token_result
        (quiet_env\<lparr>now_check := 601000000, check_token_result := Inl connection_reset\<rparr>))
   \<and> fatal_error_state (snd (fatal_section
        (quiet_env\<lparr>now_check := 601000000, check_token_result := Inl connection_reset\<rparr>)
        import_error_state)) = Some ''Import error: No module named bot''
   \<and> last_fatal_error_time (snd (fatal_section
        (quiet_env\<lparr>now_check := 601000000, check_token_result := Inl connection_reset\<rparr>)
        import_error_state)) = Some 0
   \<and> reporter (run_schedule
        [Supervisor, Supervisor, Reporter, Supervisor, Supervisor,
         Reporter, Reporter, Reporter, Reporter]
        (region_start (quiet_env\<lparr>now_check := 601000000\<rparr>) import_error_state))
       = RepAfter None None
   \<and> reporter (run_schedule
        [Reporter, Supervisor, Reporter, Supervisor, Reporter, Reporter,
         Supervisor, Supervisor, Supervisor, Supervisor]
        (region_start (quiet_env\<lparr>now_check := 601000000\<rparr>) import_error_state))
       = RepAfter (Some ''Import error: No module named bot'') (Some 0)
   \<and> supervisor (run_schedule
        [Reporter, Supervisor, Reporter, Supervisor, Reporter, Reporter,
         Supervisor, Supervisor, Supervisor, Supervisor]
        (region_start (quiet_env\<lparr>now_check := 601000000\<rparr>) import_error_state))
       = SupAfter
   \<and> fatal_error_state (shared (run_schedule
        [Reporter, Supervisor, Reporter, Supervisor, Reporter, Reporter,
         Supervisor, Supervisor, Supervisor, Supervisor]
        (region_start (quiet_env\<lparr>now_check := 601000000\<rparr>) import_error_state)))
       = None"
proof -
  let ?ok = "quiet_env\<lparr>now_check := 601000000\<rparr>"
  let ?bad = "quiet_env\<lparr>now_check := 601000000, preflight_login := Some login_failure\<rparr>"
  let ?raise = "quiet_env\<lparr>now_check := 601000000, check_token_result := Inl connection_reset\<rparr>"
  have h1: "fatal_inv import_error_state"
    by (simp add: fatal_inv_def import_error_state_def)
  have h2: "fatal_error_state import_error_state = Some ''Import error: No module named bot''"
    by (simp add: import_error_state_def)
  have h3: "last_fatal_error_time import_error_state = Some 0"
    by (simp add: import_error_state_def)
  have h4: "total_seconds (now_check ?ok - 0) > 600"
    and h5: "total_seconds (now_check ?bad - 0) > 600"
    and h5': "total_seconds (now_check ?raise - 0) > 600"
    by (simp_all add: total_seconds_def)
  have h6: "str_in ''Import error'' ''Import error: No module named bot''"
    by simp
  have h7: "reimport ?ok = ImportsOk \<and> token_ok ?ok \<and> preflight_create ?ok = None
      \<and> preflight_login ?ok = None"
    by (simp add: quiet_env_def token_ok_def)
  have h8: "preflight_login ?bad \<noteq> None"
    by simp
  have h9: "isl (check_token_result ?raise)"
    by simp
  have a_ok: "(if str_in ''Import error'' ''Import error: No module named bot''
        then reimport ?ok = ImportsOk
        else bot_module import_error_state \<and> discord_module import_error_state)
      \<and> token_ok ?ok \<and> preflight_create ?ok = None \<and> preflight_login ?ok = None"
    using h7 by simp
  have a_bad: "(str_in ''Import error'' ''Import error: No module named bot''
        \<and> reimport ?bad \<noteq> ImportsOk)
      \<or> isl (check_token_result ?bad)
      \<or> preflight_create ?bad \<noteq> None \<or> preflight_login ?bad \<noteq> None"
    using h8 by blast
  have a_raise: "(str_in ''Import error'' ''Import error: No module named bot''
        \<and> reimport ?raise \<noteq> ImportsOk)
      \<or> isl (check_token_result ?raise)
      \<or> preflight_create ?raise \<noteq> None \<or> preflight_login ?raise \<noteq> None"
    using h9 by blast
  have seq: "fatal_error_state (snd (fatal_section ?ok import_error_state)) = None
      \<and> last_fatal_error_time (snd (fatal_section ?ok import_error_state)) = None
      \<and> retry_count (snd (fatal_section ?ok import_error_state)) = 0"
    by (rule preflight_clears_or_keeps_fatal [OF h1 h2 h3 h4, THEN conjunct1, THEN mp, OF a_ok])
  have exc1: "fatal_error_state (snd (fatal_section ?bad import_error_state))
        = Some ''Import error: No module named bot''
      \<and> last_fatal_error_time (snd (fatal_section ?bad import_error_state)) = Some 0"
    by (rule preflight_clears_or_keeps_fatal
        [OF h1 h2 h3 h5, THEN conjunct2, THEN conjunct1, THEN mp, OF a_bad])
  have exc2: "fatal_error_state (snd (fatal_section ?raise import_error_state))
        = Some ''Import error: No module named bot''
      \<and> last_fatal_error_time (snd (fatal_section ?raise import_error_state)) = Some 0"
    by (rule preflight_clears_or_keeps_fatal
        [OF h1 h2 h3 h5', THEN conjunct2, THEN conjunct1, THEN mp, OF a_raise])
  have sched: "reporter (run_schedule
        [Supervisor, Supervisor, Reporter, Supervisor, Supervisor,
         Reporter, Reporter, Reporter, Reporter]
        (region_start ?ok import_error_state)) = RepAfter None None
    \<and> reporter (run_schedule
        [Reporter, Supervisor, Reporter, Supervisor, Reporter, Reporter,
         Supervisor, Supervisor, Supervisor, Supervisor]
        (region_start ?ok import_error_state))
       = RepAfter (Some ''Import error: No module named bot'') (Some 0)
    \<and> supervisor (run_schedule
        [Reporter, Supervisor, Reporter, Supervisor, Reporter, Reporter,
         Supervisor, Supervisor, Supervisor, Supervisor]
        (region_start ?ok import_error_state)) = SupAfter
    \<and> fatal_error_state (shared (run_schedule
        [Reporter, Supervisor, Reporter, Supervisor, Reporter, Reporter,
         Supervisor, Supervisor, Supervisor, Supervisor]
        (region_start ?ok import_error_state))) = None"
    by (simp only: reader_waits_for_supervisor supervisor_waits_for_reader) simp
  have hyps: "fatal_inv import_error_state
   \<and> fatal_error_state import_error_state = Some ''Import error: No module named bot''
   \<and> last_fatal_error_time import_error_state = Some 0
   \<and> total_seconds (now_check ?ok - 0) > 600
   \<and> str_in ''Import error'' ''Import error: No module named bot''
   \<and> reimport ?ok = ImportsOk \<and> token_ok ?ok \<and> preflight_create ?ok = None
   \<and> preflight_login ?ok = None"
    using h1 h2 h3 h4 h6 h7 by blast
  show ?thesis
    using hyps seq h8 exc1 h9 exc2 sched by blast
qed

section \<open>The fatal error is well formed in every state of the supervisor\<close>

lemma fatal_inv_cong:
  "fatal_error_state a = fatal_error_state b \<Longrightarrow>
   last_fatal_error_time a = last_fatal_error_time b \<Longrightarrow> fatal_inv a = fatal_inv b"
  by (simp add: fatal_inv_def split: option.splits)

lemma fatal_inv_set:
  "fatal_inv (st\<lparr>fatal_error_state := Some (c # cs), last_fatal_error_time := Some t\<rparr>)"
  by (simp add: fatal_inv_def)

lemma fatal_inv_clear_handle: "fatal_inv (st\<lparr>current_bot_instance := h\<rparr>) = fatal_inv st"
  by (simp add: fatal_inv_def split: option.splits)

lemma fatal_section_fatal_inv:
  assumes "fatal_inv st"
  shows "fatal_inv (snd (fatal_section env st))"
proof -
  have "fatal_inv (snd (recovery env cfs st))" for cfs
    using recovery_cases [of env cfs st] assms
    by (auto simp: fatal_inv_def split: option.splits)
  then show ?thesis
    using assms by (simp add: fatal_section_def split: option.splits)
qed

lemma try_body_fatal_inv:
  assumes "fatal_inv st"
  shows "fatal_inv (fst (snd (try_body env st)))"
  using fatal_section_fatal_inv [OF assms, of env]
  by (auto simp: try_body_def Let_def fatal_inv_clear_handle
      split: prod.splits sum.splits option.splits)

lemma handle_exception_fatal_inv:
  assumes "fatal_inv st"
  shows "fatal_inv (fst (snd (handle_exception env e st)))"
  using assms
  by (auto simp: handle_exception_def Let_def fatal_inv_def split: option.splits)

lemma loop_iteration_fatal_inv:
  assumes "fatal_inv st"
  shows "fatal_inv (fst (snd (loop_iteration env st)))"
proof -
  obtain evs st1 c where tb: "try_body env st = (evs, st1, c)"
    by (cases "try_body env st") auto
  have 1: "fatal_inv st1"
    using try_body_fatal_inv [OF assms, of env] tb by simp
  show ?thesis
  proof (cases c)
    case (Raised e)
    then show ?thesis
      using handle_exception_fatal_inv [OF 1, of env e] tb
      by (auto simp: loop_iteration_def finally_block_def fatal_inv_clear_handle
          split: prod.splits)
  qed (use 1 tb in \<open>simp_all add: loop_iteration_def finally_block_def fatal_inv_clear_handle\<close>)
qed

lemma startup_fatal_inv:
  assumes "startup imp tok now1 now2 = Inr (evs, st)"
  shows "fatal_inv st"
  using assms
  by (cases imp)
     (auto simp: startup_def startup_token_check_def initial_state_def fatal_inv_def Let_def
       split: if_splits)

section \<open>The health check under a fatal error\<close>

text \<open>
  Claim C4.  Whenever the fatal error that \<open>health_check\<close> reads is set, the answer is
  503 with the body \<open>status: unhealthy\<close>, \<open>fatal: true\<close>, the message and the time of the
  error, whatever \<open>bot_status\<close> holds, whatever \<open>update_bot_status\<close> has seen before and
  whatever the bot object answers.  The supervisor only stores non-empty messages together
  with their time (\<open>startup_fatal_inv\<close>, \<open>loop_iteration_fatal_inv\<close>), which is the
  first hypothesis.
\<close>

theorem health_check_fatal_unhealthy:
  assumes "fatal_inv g" "fatal_error_state g = Some m" "last_fatal_error_time g = Some t"
  shows "snd (health_check app_start_time now_u pr g_u now g bs) =
           ([(''status'', JStr ''unhealthy''),
             (''bot_online'', JBool False),
             (''timestamp'', JTime now),
             (''error'', JStr (''Fatal error: '' @ m)),
             (''app_runtime'', JNum (total_seconds (now - app_start_time))),
             (''fatal'', JBool True),
             (''error_time'', JTime t)],
            503)"
  using assms by (simp add: health_check_def Let_def fatal_inv_def truthy_def)

theorem health_check_fatal_unhealthy_witness:
  "fatal_inv token_missing_state
   \<and> fatal_error_state token_missing_state = Some ''Token Discord manquant''
   \<and> last_fatal_error_time token_missing_state = Some 0
   \<and> online (fst (health_check 0 5000000 (Probe True None 2)
        (running_state\<lparr>current_bot_instance := Some 7\<rparr>) 5000001 token_missing_state
        (initial_bot_status\<lparr>online := True\<rparr>)))
   \<and> snd (health_check 0 5000000 (Probe True None 2)
        (running_state\<lparr>current_bot_instance := Some 7\<rparr>) 5000001 token_missing_state
        (initial_bot_status\<lparr>online := True\<rparr>)) =
           ([(''status'', JStr ''unhealthy''),
             (''bot_online'', JBool False),
             (''timestamp'', JTime 5000001),
             (''error'', JStr ''Fatal error: Token Discord manquant''),
             (''app_runtime'', JNum (total_seconds (5000001 - 0))),
             (''fatal'', JBool True),
             (''error_time'', JTime 0)],
            503)"
proof -
  have h1: "fatal_inv token_missing_state"
    by (simp add: fatal_inv_def token_missing_state_def)
  have h2: "fatal_error_state token_missing_state = Some ''Token Discord manquant''"
    by (simp add: token_missing_state_def)
  have h3: "last_fatal_error_time token_missing_state = Some 0"
    by (simp add: token_missing_state_def)
  have h4: "online (fst (health_check 0 5000000 (Probe True None 2)
        (running_state\<lparr>current_bot_instance := Some 7\<rparr>) 5000001 token_missing_state
        (initial_bot_status\<lparr>online := True\<rparr>)))"
    by (simp add: health_check_def Let_def update_bot_status_def truthy_def running_state_def
        mark_online_def initial_bot_status_def token_missing_state_def)
  show ?thesis
    using h1 h2 h3 h4
      health_check_fatal_unhealthy [OF h1 h2 h3, of 0 5000000 "Probe True None 2"
        "running_state\<lparr>current_bot_instance := Some 7\<rparr>" 5000001
        "initial_bot_status\<lparr>online := True\<rparr>"]
    by simp
qed

section \<open>The health check while the bot is offline\<close>










section \<open>The connection attempt and \<open>retry_count\<close>\<close>

lemma fatal_section_no_fatal:
  assumes "\<not> truthy (fatal_error_state st)"
  shows "fatal_section env st = ([], st)"
  using assms by (auto simp: fatal_section_def truthy_def split: option.splits)



lemma try_body_connect:
  assumes "\<not> truthy (fatal_error_state st)" "bot_module st" "discord_module st"
    "create_result env = Inr b"
  shows "try_body env st =
    ([CreateBot, PublishHandle b, RunBot], st\<lparr>current_bot_instance := Some b\<rparr>,
     case run_result env of None \<Rightarrow> Completed | Some e \<Rightarrow> Raised e)"
  using assms
  by (simp add: try_body_def fatal_section_no_fatal Let_def split: option.splits)


lemma handle_exception_retry_count:
  "retry_count (fst (snd (handle_exception env e st))) =
     (if \<not> caught_as_configuration st e \<and> type_name e \<noteq> ''LoginFailure''
      then retry_count st + 1 else retry_count st)"
  by (simp add: handle_exception_def Let_def)

lemma loop_iteration_retry_count:
  "retry_count (fst (snd (loop_iteration env st))) =
     (case snd (snd (try_body env st)) of
        Raised e \<Rightarrow> retry_count (fst (snd (handle_exception env e (fst (snd (try_body env st))))))
      | _ \<Rightarrow> retry_count (fst (snd (try_body env st))))"
  by (auto simp: loop_iteration_def finally_block_def split: prod.splits completion.splits)

text \<open>
  Claim C6, as the code has it.  When there is no fatal error, the bot is created and
  \<open>run\<close> returns without an exception, no \<open>except\<close> clause runs: the pass ends with the
  \<open>finally\<close> clause alone, \<open>retry_count\<close> keeps its value, nothing is slept, and the loop
  goes on to its next pass at once.
\<close>

theorem normal_return_restarts_at_once:
  assumes "\<not> truthy (fatal_error_state st)" "bot_module st" "discord_module st"
    "create_result env = Inr b" "run_result env = None"
  shows "loop_iteration env st =
           ([CreateBot, PublishHandle b, RunBot, ClearHandle],
            st\<lparr>current_bot_instance := None\<rparr>, False)"
  using try_body_connect [OF assms(1-4)] assms(5)
  by (simp add: loop_iteration_def finally_block_def)

theorem normal_return_restarts_at_once_witness:
  "\<not> truthy (fatal_error_state (running_state\<lparr>retry_count := 2\<rparr>))
   \<and> bot_module (running_state\<lparr>retry_count := 2\<rparr>)
   \<and> discord_module (running_state\<lparr>retry_count := 2\<rparr>)
   \<and> create_result quiet_env = Inr 7 \<and> run_result quiet_env = None
   \<and> loop_iteration quiet_env (running_state\<lparr>retry_count := 2\<rparr>) =
           ([CreateBot, PublishHandle 7, RunBot, ClearHandle],
            running_state\<lparr>retry_count := 2, current_bot_instance := None\<rparr>, False)"
proof -
  have h1: "\<not> truthy (fatal_error_state (running_state\<lparr>retry_count := 2\<rparr>))"
    by (simp add: running_state_def truthy_def)
  have h2: "bot_module (running_state\<lparr>retry_count := 2\<rparr>)"
    and h3: "discord_module (running_state\<lparr>retry_count := 2\<rparr>)"
    by (simp_all add: running_state_def)
  have h4: "create_result quiet_env = Inr 7" and h5: "run_result quiet_env = None"
    by (simp_all add: quiet_env_def)
  show ?thesis
    using h1 h2 h3 h4 h5 normal_return_restarts_at_once [OF h1 h2 h3 h4 h5]
    by simp
qed

text \<open>
  A normal return is not treated as a transient failure: with \<open>retry_count\<close> at 2, the
  pass in which \<open>run\<close> returns sleeps nothing and leaves the count at 2, while the pass
  in which \<open>run\<close> raises a connection error brings it to 3.
\<close>

theorem normal_return_counterexample:
  "run_result quiet_env = None
   \<and> retry_count (running_state\<lparr>retry_count := 2\<rparr>) = 2
   \<and> fst (loop_iteration quiet_env (running_state\<lparr>retry_count := 2\<rparr>))
       = [CreateBot, PublishHandle 7, RunBot, ClearHandle]
   \<and> retry_count (fst (snd (loop_iteration quiet_env (running_state\<lparr>retry_count := 2\<rparr>)))) = 2
   \<and> retry_count (fst (snd (loop_iteration (quiet_env\<lparr>run_result := Some connection_reset\<rparr>)
        (running_state\<lparr>retry_count := 2\<rparr>)))) = 3"
proof -
  have h1: "\<not> truthy (fatal_error_state (running_state\<lparr>retry_count := 2\<rparr>))"
    by (simp add: running_state_def truthy_def)
  have h2: "bot_module (running_state\<lparr>retry_count := 2\<rparr>)"
    and h3: "discord_module (running_state\<lparr>retry_count := 2\<rparr>)"
    by (simp_all add: running_state_def)
  have tb: "try_body env (running_state\<lparr>retry_count := 2\<rparr>) =
    ([CreateBot, PublishHandle 7, RunBot],
     running_state\<lparr>retry_count := 2, current_bot_instance := Some 7\<rparr>,
     case run_result env of None \<Rightarrow> Completed | Some e \<Rightarrow> Raised e)"
    if "create_result env = Inr 7" for env
    using try_body_connect [OF h1 h2 h3 that] by simp
  have c: "\<not> caught_as_configuration
      (running_state\<lparr>retry_count := 2, current_bot_instance := Some 7\<rparr>) connection_reset"
    by (simp add: caught_as_configuration_def running_state_def connection_reset_def)
  have n: "type_name connection_reset \<noteq> ''LoginFailure''"
    by (simp add: connection_reset_def)
  have a: "loop_iteration quiet_env (running_state\<lparr>retry_count := 2\<rparr>) =
           ([CreateBot, PublishHandle 7, RunBot, ClearHandle],
            running_state\<lparr>retry_count := 2, current_bot_instance := None\<rparr>, False)"
    using tb [of quiet_env]
    by (simp add: loop_iteration_def finally_block_def quiet_env_def)
  have b: "retry_count (fst (snd (loop_iteration (quiet_env\<lparr>run_result := Some connection_reset\<rparr>)
        (running_state\<lparr>retry_count := 2\<rparr>)))) = 3"
    using tb [of "quiet_env\<lparr>run_result := Some connection_reset\<rparr>"] c n
    by (simp add: loop_iteration_retry_count handle_exception_retry_count quiet_env_def)
  show ?thesis
    using a b by (simp add: quiet_env_def)
qed




section \<open>Fatal classification of the exceptions of \<open>run\<close>\<close>

text \<open>
  When the class \<open>BotConfigurationError\<close> was imported at startup, an instance of it
  gives the fatal error \<open>Configuration error: ...\<close> and a \<open>LoginFailure\<close> gives
  \<open>Invalid token: ...\<close>, both with the time of the failure; \<open>retry_count\<close> is left alone
  and the loop is not left, unless a shutdown is requested.
\<close>

lemma handle_exception_fatal:
  assumes "bot_configuration_error_imported st"
  shows "is_bot_configuration_error e \<Longrightarrow>
           handle_exception env e st =
             ([SetFatal (''Configuration error: '' @ str e)],
              st\<lparr>fatal_error_state := Some (''Configuration error: '' @ str e),
                 last_fatal_error_time := Some (now_fail env)\<rparr>, False)"
    and "\<not> is_bot_configuration_error e \<Longrightarrow> type_name e = ''LoginFailure'' \<Longrightarrow>
           fst (snd (handle_exception env e st)) =
              st\<lparr>fatal_error_state := Some (''Invalid token: '' @ str e),
                 last_fatal_error_time := Some (now_fail env)\<rparr>
           \<and> snd (snd (handle_exception env e st)) = shutdown_in_handler env"
  using assms
  by (simp_all add: handle_exception_def caught_as_configuration_def Let_def)

text \<open>The run of the supervisor used below, step by step.\<close>

lemma startup_bot_import_fails:
  "startup (BotImportFails module_not_found) True 0 0
     = Inr ([SetFatal ''Import error: No module named bot''], import_error_state)"
  by (simp add: startup_def startup_token_check_def initial_state_def module_not_found_def
      import_error_state_def Let_def)

lemma recovery_after_import_error:
  "fatal_section login_failure_env import_error_state
     = ([RecoveryAttempt, CheckToken, CreateBot, LoginTest, ClearFatal], recovered_state)"
  by (simp add: fatal_section_def recovery_def import_error_state_def login_failure_env_def
      quiet_env_def total_seconds_def recovered_state_def)

lemma try_body_after_import_error:
  "try_body login_failure_env import_error_state
     = ([RecoveryAttempt, CheckToken, CreateBot, LoginTest, ClearFatal,
         CreateBot, PublishHandle 7, RunBot],
        recovered_state\<lparr>current_bot_instance := Some 7\<rparr>, Raised login_failure)"
proof -
  have nf: "\<not> truthy (fatal_error_state recovered_state)"
    and m: "bot_module recovered_state \<and> discord_module recovered_state"
    by (simp_all add: recovered_state_def truthy_def)
  have c: "create_result login_failure_env = Inr 7"
    and r: "run_result login_failure_env = Some login_failure"
    by (simp_all add: login_failure_env_def quiet_env_def)
  show ?thesis
    using nf m by (simp add: try_body_def recovery_after_import_error c r)
qed

lemma login_failure_as_configuration:
  "handle_exception login_failure_env login_failure
      (recovered_state\<lparr>current_bot_instance := Some 7\<rparr>)
     = ([SetFatal ''Configuration error: Improper token has been passed.''],
        recovered_state\<lparr>current_bot_instance := Some 7,
          fatal_error_state := Some ''Configuration error: Improper token has been passed.'',
          last_fatal_error_time := Some 602000000\<rparr>, False)"
  by (simp add: handle_exception_def caught_as_configuration_def recovered_state_def
      login_failure_def login_failure_env_def Let_def)

text \<open>
  Claim C8.  The claim fails after a recovery from an import error.  At startup
  \<open>import bot\<close> raises, so \<open>BotConfigurationError\<close> is the fallback \<open>Exception\<close>; the
  recovery imports the class under the name \<open>LocalBotConfigurationError\<close> and leaves
  \<open>BotConfigurationError\<close> as it was.  In the same pass the bot is started and \<open>run\<close>
  raises \<open>LoginFailure\<close>, which the clause \<open>except BotConfigurationError\<close> catches: the
  fatal error stored is \<open>Configuration error: ...\<close>, not \<open>Invalid token: ...\<close>.
\<close>

theorem login_failure_after_reimport:
  "startup (BotImportFails module_not_found) True 0 0
     = Inr ([SetFatal ''Import error: No module named bot''], import_error_state)
   \<and> run_result login_failure_env = Some login_failure
   \<and> type_name login_failure = ''LoginFailure''
   \<and> \<not> is_bot_configuration_error login_failure
   \<and> loop_iteration login_failure_env import_error_state
     = ([RecoveryAttempt, CheckToken, CreateBot, LoginTest, ClearFatal,
         CreateBot, PublishHandle 7, RunBot,
         SetFatal ''Configuration error: Improper token has been passed.'', ClearHandle],
        recovered_state\<lparr>current_bot_instance := None,
          fatal_error_state := Some ''Configuration error: Improper token has been passed.'',
          last_fatal_error_time := Some 602000000\<rparr>, False)"
proof -
  have r: "run_result login_failure_env = Some login_failure"
    by (simp add: login_failure_env_def)
  have l: "type_name login_failure = ''LoginFailure''
      \<and> \<not> is_bot_configuration_error login_failure"
    by (simp add: login_failure_def)
  have "loop_iteration login_failure_env import_error_state
     = ([RecoveryAttempt, CheckToken, CreateBot, LoginTest, ClearFatal,
         CreateBot, PublishHandle 7, RunBot,
         SetFatal ''Configuration error: Improper token has been passed.'', ClearHandle],
        recovered_state\<lparr>current_bot_instance := None,
          fatal_error_state := Some ''Configuration error: Improper token has been passed.'',
          last_fatal_error_time := Some 602000000\<rparr>, False)"
    by (simp add: loop_iteration_def try_body_after_import_error
        login_failure_as_configuration finally_block_def)
  then show ?thesis
    using startup_bot_import_fails r l by simp
qed

theorem login_failure_after_reimport_witness:
  "fatal_error_state (fst (snd (loop_iteration login_failure_env import_error_state)))
     = Some ''Configuration error: Improper token has been passed.''
   \<and> fatal_error_state (fst (snd (loop_iteration login_failure_env import_error_state)))
     \<noteq> Some (''Invalid token: '' @ str login_failure)"
  using login_failure_after_reimport by simp

section \<open>The published bot object\<close>

lemma loop_iteration_ends_with_finally:
  "fst (loop_iteration env st) =
     fst (try_body env st)
     @ (case snd (snd (try_body env st)) of
          Raised e \<Rightarrow> fst (handle_exception env e (fst (snd (try_body env st))))
        | _ \<Rightarrow> [])
     @ [ClearHandle]"
  by (auto simp: loop_iteration_def finally_block_def split: prod.splits completion.splits)

lemma recovery_no_clear_handle: "ClearHandle \<notin> set (fst (recovery env cfs st))"
  by (auto simp: recovery_def split: prod.splits option.splits sum.splits)

lemma fatal_section_no_clear_handle: "ClearHandle \<notin> set (fst (fatal_section env st))"
  using recovery_no_clear_handle
  by (auto simp: fatal_section_def split: option.splits)

lemma try_body_no_clear_handle: "ClearHandle \<notin> set (fst (try_body env st))"
  using fatal_section_no_clear_handle [of env st]
  by (auto simp: try_body_def Let_def split: prod.splits sum.splits option.splits)

lemma handle_exception_no_clear_handle:
  "ClearHandle \<notin> set (fst (handle_exception env e st))"
  by (auto simp: handle_exception_def Let_def)

lemma handle_exception_keeps_handle:
  "current_bot_instance (fst (snd (handle_exception env e st))) = current_bot_instance st"
  by (simp add: handle_exception_def Let_def)

lemma transient_try_body:
  "try_body transient_env running_state =
    ([CreateBot, PublishHandle 7, RunBot], running_state\<lparr>current_bot_instance := Some 7\<rparr>,
     Raised connection_reset)"
proof -
  have h1: "\<not> truthy (fatal_error_state running_state)"
    by (simp add: running_state_def truthy_def)
  have h2: "bot_module running_state" and h3: "discord_module running_state"
    by (simp_all add: running_state_def)
  have h4: "create_result transient_env = Inr 7"
    by (simp add: transient_env_def quiet_env_def)
  show ?thesis
    using try_body_connect [OF h1 h2 h3 h4] by (simp add: transient_env_def)
qed

lemma transient_handler:
  "handle_exception transient_env connection_reset
      (running_state\<lparr>current_bot_instance := Some 7\<rparr>)
     = ([Sleep 3], running_state\<lparr>current_bot_instance := Some 7, retry_count := 1\<rparr>, False)"
  by (simp add: handle_exception_def caught_as_configuration_def running_state_def
      connection_reset_def transient_env_def quiet_env_def wait_time_example floor_example
      py_int_def sleep_loop_3)

text \<open>
  Claim C9, as the code has it.  Every pass of the loop ends with the \<open>finally\<close> clause:
  \<open>current_bot_instance\<close> is \<open>None\<close> when the pass is over, the clearing is the last thing
  the pass does, and it happens once.  The \<open>except\<close> clauses, which run before it and
  hold the backoff sleep, leave \<open>current_bot_instance\<close> as \<open>run\<close> left it.
\<close>

theorem handle_cleared_at_end_of_pass:
  "current_bot_instance (fst (snd (loop_iteration env st))) = None
   \<and> fst (loop_iteration env st) = butlast (fst (loop_iteration env st)) @ [ClearHandle]
   \<and> ClearHandle \<notin> set (butlast (fst (loop_iteration env st)))
   \<and> current_bot_instance (fst (snd (handle_exception env e st1))) = current_bot_instance st1"
proof -
  have 1: "current_bot_instance (fst (snd (loop_iteration env st))) = None"
    by (simp add: loop_iteration_def finally_block_def split: prod.splits)
  have 2: "butlast (fst (loop_iteration env st)) =
     fst (try_body env st)
     @ (case snd (snd (try_body env st)) of
          Raised e \<Rightarrow> fst (handle_exception env e (fst (snd (try_body env st))))
        | _ \<Rightarrow> [])"
    by (simp add: loop_iteration_ends_with_finally butlast_append)
  have 3: "ClearHandle \<notin> set (butlast (fst (loop_iteration env st)))"
    unfolding 2
    using try_body_no_clear_handle handle_exception_no_clear_handle
    by (auto split: completion.splits)
  have 4: "fst (loop_iteration env st) = butlast (fst (loop_iteration env st)) @ [ClearHandle]"
    unfolding 2 by (simp add: loop_iteration_ends_with_finally)
  show ?thesis
    using 1 3 4 handle_exception_keeps_handle by blast
qed

theorem handle_cleared_at_end_of_pass_witness:
  "current_bot_instance (fst (snd (loop_iteration transient_env running_state))) = None
   \<and> fst (loop_iteration transient_env running_state)
       = [CreateBot, PublishHandle 7, RunBot, Sleep 3, ClearHandle]
   \<and> fst (loop_iteration quiet_env running_state)
       = [CreateBot, PublishHandle 7, RunBot, ClearHandle]"
proof -
  have a: "fst (loop_iteration transient_env running_state)
       = [CreateBot, PublishHandle 7, RunBot, Sleep 3, ClearHandle]"
    by (simp add: loop_iteration_ends_with_finally transient_try_body transient_handler)
  have h1: "\<not> truthy (fatal_error_state running_state)"
    by (simp add: running_state_def truthy_def)
  have h2: "bot_module running_state" and h3: "discord_module running_state"
    by (simp_all add: running_state_def)
  have h4: "create_result quiet_env = Inr 7" and h5: "run_result quiet_env = None"
    by (simp_all add: quiet_env_def)
  have b: "fst (loop_iteration quiet_env running_state)
       = [CreateBot, PublishHandle 7, RunBot, ClearHandle]"
    using loop_iteration_ends_with_finally [of quiet_env running_state]
      try_body_connect [OF h1 h2 h3 h4] h5 by simp
  show ?thesis
    using a b handle_cleared_at_end_of_pass [of transient_env running_state connection_reset
        running_state]
    by simp
qed

text \<open>
  The bot object is not cleared as soon as the connection attempt ends: when \<open>run\<close>
  raises a connection error, the handler sleeps 3 seconds while \<open>current_bot_instance\<close>
  still holds the object whose \<open>run\<close> has ended, and only then is it cleared.
\<close>

theorem stale_handle_counterexample:
  "run_result transient_env = Some connection_reset
   \<and> fst (loop_iteration transient_env running_state)
       = [CreateBot, PublishHandle 7, RunBot, Sleep 3, ClearHandle]
   \<and> fst (snd (try_body transient_env running_state))
       = running_state\<lparr>current_bot_instance := Some 7\<rparr>
   \<and> fst (handle_exception transient_env connection_reset
        (fst (snd (try_body transient_env running_state)))) = [Sleep 3]
   \<and> current_bot_instance (fst (snd (handle_exception transient_env connection_reset
        (fst (snd (try_body transient_env running_state)))))) = Some 7"
proof -
  have a: "fst (loop_iteration transient_env running_state)
       = [CreateBot, PublishHandle 7, RunBot, Sleep 3, ClearHandle]"
    by (simp add: loop_iteration_ends_with_finally transient_try_body transient_handler)
  have r: "run_result transient_env = Some connection_reset"
    by (simp add: transient_env_def)
  show ?thesis
    using a r by (simp add: transient_try_body transient_handler)
qed

section \<open>Import failure and missing token at startup\<close>

text \<open>
  Claim C10, as the code has it.  When \<open>import bot\<close> itself raises an \<open>ImportError\<close> at
  startup, \<open>bot_module\<close> stays \<open>None\<close>, the token is not checked, and the one fatal
  error recorded is the import error, whether the token is there or not.
\<close>

theorem bot_import_failure_skips_token_check:
  assumes "is_import_error e"
  shows "startup (BotImportFails e) tok now1 now2 =
           Inr ([SetFatal (''Import error: '' @ str e)],
                initial_state\<lparr>fatal_error_state := Some (''Import error: '' @ str e),
                  last_fatal_error_time := Some now1\<rparr>)"
  using assms
  by (simp add: startup_def startup_token_check_def initial_state_def Let_def)

theorem bot_import_failure_skips_token_check_witness:
  "is_import_error module_not_found
   \<and> startup (BotImportFails module_not_found) False 1 2 =
           Inr ([SetFatal ''Import error: No module named bot''],
                initial_state\<lparr>fatal_error_state := Some ''Import error: No module named bot'',
                  last_fatal_error_time := Some 1\<rparr>)"
proof -
  have h: "is_import_error module_not_found"
    by (simp add: module_not_found_def)
  have s: "str module_not_found = ''No module named bot''"
    by (simp add: module_not_found_def)
  show ?thesis
    using h bot_import_failure_skips_token_check [OF h, of False 1 2]
    by (simp add: s)
qed

text \<open>
  The import block can also fail after \<open>bot\<close> has been imported.  Then the token is
  checked, and a missing token replaces the import error: two fatal errors are recorded
  and the second one stays.
\<close>

theorem later_import_failure_counterexample:
  "is_import_error discord_not_found
   \<and> startup (DiscordImportFails discord_not_found) False 1 2 =
           Inr ([SetFatal ''Import error: No module named discord'', CheckToken,
                 SetFatal ''Token Discord manquant''],
                initial_state\<lparr>bot_module := True, bot_configuration_error_imported := True,
                  fatal_error_state := Some ''Token Discord manquant'',
                  last_fatal_error_time := Some 2\<rparr>)"
  by (simp add: startup_def startup_token_check_def initial_state_def Let_def
      discord_not_found_def)

end
